theory Spec2Isabelle
  imports Main
begin

section \<open>Values, errors and the outside world\<close>

text \<open>
  The two scripts (the flagged pipeline with the 'ours' fallback, and
  \<^verbatim>\<open>extra/resolve-conflict.js\<close>) are sequential programs whose every step is a call
  to a collaborator: \<^verbatim>\<open>execSync\<close>, \<^verbatim>\<open>fs.readFileSync\<close>, \<^verbatim>\<open>fs.writeFileSync\<close>,
  \<^verbatim>\<open>axios.post\<close>, \<^verbatim>\<open>console\<close> and \<^verbatim>\<open>process.exit\<close>. The collaborators are
  parameters of the model: a record of functions over an arbitrary world \<open>'w\<close>, each
  returning either the thrown error or the value, and the next world. The model records
  every call in a trace, in order.

  Strings are \<open>string\<close>; a character beyond ASCII is written as its UTF-8 bytes. A value
  that JavaScript may leave \<^verbatim>\<open>undefined\<close> (an unset environment variable, a missing
  field, the \<^verbatim>\<open>null\<close> of \<^verbatim>\<open>runCommand\<close>) is a \<open>string option\<close>.
\<close>

datatype js_error = JsError (err_name: string) (err_message: string)

datatype post_body =
    CompletionBody string string nat
  | CommentBody string

datatype choice = Choice (choice_text: "string option")

datatype response = Response (choices: "choice list option")

datatype event =
    Exec string
  | ReadFile string
  | WriteFile string string
  | HttpPost string post_body "(string \<times> string) list"
  | ConsoleLog string
  | ConsoleError string "js_error option"

record 'w env =
  execSync :: "string \<Rightarrow> 'w \<Rightarrow> (js_error + string) \<times> 'w"
  readFileSync :: "string \<Rightarrow> 'w \<Rightarrow> (js_error + string) \<times> 'w"
  writeFileSync :: "string \<Rightarrow> string \<Rightarrow> 'w \<Rightarrow> js_error option \<times> 'w"
  axios_post :: "string \<Rightarrow> post_body \<Rightarrow> (string \<times> string) list \<Rightarrow> 'w
                  \<Rightarrow> (js_error + response) \<times> 'w"

text \<open>
  The state a run threads: the world, the trace of calls made so far, and the two report
  strings of \<^verbatim>\<open>main\<close> (\<^verbatim>\<open>let successComment\<close>, \<^verbatim>\<open>let failureComment\<close>), which the
  loop body appends to inside a \<^verbatim>\<open>try\<close> and which therefore survive a throw.
\<close>

record 'w state =
  world :: 'w
  trace :: "event list"
  successComment :: string
  failureComment :: string

text \<open>
  A statement completes with a value, with a thrown error, or by \<^verbatim>\<open>process.exit\<close>,
  which ends the process at once and which no \<^verbatim>\<open>catch\<close> sees.
\<close>

datatype 'a result = Value 'a | Raise js_error | ProcessExit nat

type_synonym ('w, 'a) prog = "'w state \<Rightarrow> 'a result \<times> 'w state"

definition ret :: "'a \<Rightarrow> ('w, 'a) prog" where
  "ret x s = (Value x, s)"

definition throw :: "js_error \<Rightarrow> ('w, 'a) prog" where
  "throw e s = (Raise e, s)"

definition process_exit :: "nat \<Rightarrow> ('w, 'a) prog" where
  "process_exit n s = (ProcessExit n, s)"

definition bind :: "('w, 'a) prog \<Rightarrow> ('a \<Rightarrow> ('w, 'b) prog) \<Rightarrow> ('w, 'b) prog" where
  "bind m f s =
     (case m s of
        (Value x, s') \<Rightarrow> f x s'
      | (Raise e, s') \<Rightarrow> (Raise e, s')
      | (ProcessExit n, s') \<Rightarrow> (ProcessExit n, s'))"

definition try_catch :: "('w, 'a) prog \<Rightarrow> (js_error \<Rightarrow> ('w, 'a) prog) \<Rightarrow> ('w, 'a) prog" where
  "try_catch m h s =
     (case m s of
        (Raise e, s') \<Rightarrow> h e s'
      | (Value x, s') \<Rightarrow> (Value x, s')
      | (ProcessExit n, s') \<Rightarrow> (ProcessExit n, s'))"

definition emit :: "event \<Rightarrow> ('w, unit) prog" where
  "emit ev s = (Value (), s\<lparr>trace := trace s @ [ev]\<rparr>)"

definition console_log :: "string \<Rightarrow> ('w, unit) prog" where
  "console_log msg = emit (ConsoleLog msg)"

definition console_error :: "string \<Rightarrow> js_error option \<Rightarrow> ('w, unit) prog" where
  "console_error msg err = emit (ConsoleError msg err)"

definition call_execSync :: "'w env \<Rightarrow> string \<Rightarrow> ('w, string) prog" where
  "call_execSync env command s =
     (case execSync env command (world s) of
        (r, w') \<Rightarrow>
          (let s' = s\<lparr>world := w', trace := trace s @ [Exec command]\<rparr>
           in case r of Inl e \<Rightarrow> (Raise e, s') | Inr out \<Rightarrow> (Value out, s')))"

definition call_readFileSync :: "'w env \<Rightarrow> string \<Rightarrow> ('w, string) prog" where
  "call_readFileSync env filePath s =
     (case readFileSync env filePath (world s) of
        (r, w') \<Rightarrow>
          (let s' = s\<lparr>world := w', trace := trace s @ [ReadFile filePath]\<rparr>
           in case r of Inl e \<Rightarrow> (Raise e, s') | Inr content \<Rightarrow> (Value content, s')))"

definition call_writeFileSync :: "'w env \<Rightarrow> string \<Rightarrow> string \<Rightarrow> ('w, unit) prog" where
  "call_writeFileSync env filePath content s =
     (case writeFileSync env filePath content (world s) of
        (r, w') \<Rightarrow>
          (let s' = s\<lparr>world := w', trace := trace s @ [WriteFile filePath content]\<rparr>
           in case r of Some e \<Rightarrow> (Raise e, s') | None \<Rightarrow> (Value (), s')))"

definition call_axios_post ::
  "'w env \<Rightarrow> string \<Rightarrow> post_body \<Rightarrow> (string \<times> string) list \<Rightarrow> ('w, response) prog" where
  "call_axios_post env url body headers s =
     (case axios_post env url body headers (world s) of
        (r, w') \<Rightarrow>
          (let s' = s\<lparr>world := w', trace := trace s @ [HttpPost url body headers]\<rparr>
           in case r of Inl e \<Rightarrow> (Raise e, s') | Inr resp \<Rightarrow> (Value resp, s')))"

definition append_success :: "string \<Rightarrow> ('w, unit) prog" where
  "append_success str s = (Value (), s\<lparr>successComment := successComment s @ str\<rparr>)"

definition append_failure :: "string \<Rightarrow> ('w, unit) prog" where
  "append_failure str s = (Value (), s\<lparr>failureComment := failureComment s @ str\<rparr>)"

subsection \<open>The string operations the scripts use\<close>

text \<open>
  \<^verbatim>\<open>String.prototype.trim\<close> removes white space and line terminators from both ends:
  tab, line feed, vertical tab, form feed, carriage return, space, U+00A0, U+1680,
  U+2000 to U+200A, U+2028, U+2029, U+202F, U+205F, U+3000 and U+FEFF. Each is listed
  here as its UTF-8 bytes. A string is stripped at the front while one of them is a
  prefix, and at the back while one of them is a suffix.
\<close>

definition white_space :: "string list" where
  "white_space =
     [[CHR 0x09], [CHR 0x0A], [CHR 0x0B], [CHR 0x0C], [CHR 0x0D], [CHR 0x20],
      [CHR 0xC2, CHR 0xA0],
      [CHR 0xE1, CHR 0x9A, CHR 0x80],
      [CHR 0xE2, CHR 0x80, CHR 0x80], [CHR 0xE2, CHR 0x80, CHR 0x81],
      [CHR 0xE2, CHR 0x80, CHR 0x82], [CHR 0xE2, CHR 0x80, CHR 0x83],
      [CHR 0xE2, CHR 0x80, CHR 0x84], [CHR 0xE2, CHR 0x80, CHR 0x85],
      [CHR 0xE2, CHR 0x80, CHR 0x86], [CHR 0xE2, CHR 0x80, CHR 0x87],
      [CHR 0xE2, CHR 0x80, CHR 0x88], [CHR 0xE2, CHR 0x80, CHR 0x89],
      [CHR 0xE2, CHR 0x80, CHR 0x8A],
      [CHR 0xE2, CHR 0x80, CHR 0xA8], [CHR 0xE2, CHR 0x80, CHR 0xA9],
      [CHR 0xE2, CHR 0x80, CHR 0xAF],
      [CHR 0xE2, CHR 0x81, CHR 0x9F],
      [CHR 0xE3, CHR 0x80, CHR 0x80],
      [CHR 0xEF, CHR 0xBB, CHR 0xBF]]"

text \<open>The length of the first of \<open>ps\<close> that is a prefix of \<open>s\<close>, or 0 when none is.\<close>

definition leading_match :: "string list \<Rightarrow> string \<Rightarrow> nat" where
  "leading_match ps s =
     (case List.find (\<lambda>p. take (length p) s = p) ps of
        None \<Rightarrow> 0
      | Some p \<Rightarrow> length p)"

function strip_leading :: "string list \<Rightarrow> string \<Rightarrow> string" where
  "strip_leading ps s =
     (if leading_match ps s = 0 then s
      else strip_leading ps (drop (leading_match ps s) s))"
  by pat_completeness auto
termination
proof (relation "measure (\<lambda>(ps, s). length s)")
  show "wf (measure (\<lambda>(ps, s). length s))" by simp
next
  fix ps :: "string list" and s :: string
  assume m: "leading_match ps s \<noteq> 0"
  then obtain p where p: "List.find (\<lambda>p. take (length p) s = p) ps = Some p" "length p \<noteq> 0"
    by (auto simp: leading_match_def split: option.splits)
  then have "take (length p) s = p"
    by (auto simp: find_Some_iff)
  then have "s \<noteq> []"
    using p(2) by auto
  then show "((ps, drop (leading_match ps s) s), (ps, s)) \<in> measure (\<lambda>(ps, s). length s)"
    using m by simp
qed

declare strip_leading.simps [simp del]

definition trim :: "string \<Rightarrow> string" where
  "trim s = rev (strip_leading (map rev white_space) (rev (strip_leading white_space s)))"

text \<open>\<^verbatim>\<open>s.split("\n")\<close>: the pieces between line feeds, empty pieces kept.\<close>

fun split_lines :: "string \<Rightarrow> string list" where
  "split_lines [] = [[]]"
| "split_lines (c # cs) =
     (if c = CHR 0x0A then [] # split_lines cs
      else (case split_lines cs of
              [] \<Rightarrow> [[c]]
            | l # ls \<Rightarrow> (c # l) # ls))"

text \<open>\<^verbatim>\<open>xs.join(sep)\<close>.\<close>

fun join :: "string \<Rightarrow> string list \<Rightarrow> string" where
  "join sep [] = []"
| "join sep [x] = x"
| "join sep (x # y # ys) = x @ sep @ join sep (y # ys)"

text \<open>A string is truthy when it is defined and not empty.\<close>

definition truthy :: "string option \<Rightarrow> bool" where
  "truthy v = (case v of None \<Rightarrow> False | Some str \<Rightarrow> str \<noteq> [])"

text \<open>A value inside a template literal: \<^verbatim>\<open>undefined\<close> prints as that word.\<close>

definition to_str :: "string option \<Rightarrow> string" where
  "to_str v = (case v of None \<Rightarrow> ''undefined'' | Some str \<Rightarrow> str)"

section \<open>The flagged pipeline\<close>

subsection \<open>Configuration\<close>

text \<open>
  \<^verbatim>\<open>process.env\<close> is a map from names to strings. The script reads its four constants
  from it once, at load time; \<^verbatim>\<open>USE_AI\<close> is the comparison with the string \<^verbatim>\<open>"true"\<close>.
\<close>

type_synonym process_env = "string \<rightharpoonup> string"

definition OPENAI_API_KEY :: "process_env \<Rightarrow> string option" where
  "OPENAI_API_KEY penv = penv ''OPENAI_API_KEY''"

definition GITHUB_TOKEN :: "process_env \<Rightarrow> string option" where
  "GITHUB_TOKEN penv = penv ''GITHUB_TOKEN''"

definition PR_NUMBER :: "process_env \<Rightarrow> string option" where
  "PR_NUMBER penv = penv ''PR_NUMBER''"

definition USE_AI :: "process_env \<Rightarrow> bool" where
  "USE_AI penv = (penv ''USE_AI'' = Some ''true'')"

subsection \<open>runCommand and getConflictedFiles\<close>

definition runCommand :: "'w env \<Rightarrow> string \<Rightarrow> ('w, string option) prog" where
  "runCommand env command =
     try_catch
       (bind (call_execSync env command) (\<lambda>out. ret (Some (trim out))))
       (\<lambda>error.
          bind (console_error (''Error executing command: '' @ command) (Some error))
            (\<lambda>_. ret None))"

definition list_unmerged_cmd :: string where
  "list_unmerged_cmd = ''git diff --name-only --diff-filter=U''"

definition getConflictedFiles :: "'w env \<Rightarrow> ('w, string list) prog" where
  "getConflictedFiles env =
     bind (runCommand env list_unmerged_cmd)
       (\<lambda>conflictedFiles.
          ret (if truthy conflictedFiles then split_lines (to_str conflictedFiles) else []))"

subsection \<open>resolveWithAI\<close>

definition completions_url :: string where
  "completions_url = ''https://api.openai.com/v1/completions''"

definition ai_prompt :: "string \<Rightarrow> string" where
  "ai_prompt fileContent =
     ''You are a code assistant. Resolve the following Git merge conflict:\<newline>\<newline>''
       @ fileContent"

text \<open>
  \<^verbatim>\<open>response.data.choices[0].text\<close>: reading an index of a missing \<^verbatim>\<open>choices\<close>, or a
  field of a missing first element, throws a TypeError; a first element without
  \<^verbatim>\<open>text\<close> gives \<^verbatim>\<open>undefined\<close>.
\<close>

definition first_choice_text :: "response \<Rightarrow> ('w, string option) prog" where
  "first_choice_text resp =
     (case choices resp of
        None \<Rightarrow>
          throw (JsError ''TypeError'' ''Cannot read properties of undefined (reading '0')'')
      | Some [] \<Rightarrow>
          throw (JsError ''TypeError'' ''Cannot read properties of undefined (reading 'text')'')
      | Some (c # _) \<Rightarrow> ret (choice_text c))"

definition resolveWithAI :: "process_env \<Rightarrow> 'w env \<Rightarrow> string \<Rightarrow> ('w, string option) prog" where
  "resolveWithAI penv env filePath =
     bind (call_readFileSync env filePath)
       (\<lambda>fileContent.
          bind (call_axios_post env completions_url
                  (CompletionBody ''text-davinci-003'' (ai_prompt fileContent) 1500)
                  [(''Authorization'', ''Bearer '' @ to_str (OPENAI_API_KEY penv)),
                   (''Content-Type'', ''application/json'')])
            first_choice_text)"

subsection \<open>resolveManually and getFileDiff\<close>

definition checkout_ours_cmd :: "string \<Rightarrow> string" where
  "checkout_ours_cmd filePath = ''git checkout --ours '' @ filePath"

definition git_add_cmd :: "string \<Rightarrow> string" where
  "git_add_cmd filePath = ''git add '' @ filePath"

definition resolveManually :: "'w env \<Rightarrow> string \<Rightarrow> ('w, bool) prog" where
  "resolveManually env filePath =
     bind (console_log (''Resolving conflict manually in '' @ filePath))
       (\<lambda>_.
          try_catch
            (bind (runCommand env (checkout_ours_cmd filePath))
               (\<lambda>_. bind (runCommand env (git_add_cmd filePath))
               (\<lambda>_. bind (console_log (''Resolved '' @ filePath @ '' with 'ours' strategy.''))
               (\<lambda>_. ret True))))
            (\<lambda>error.
               bind (console_error
                       (''Error resolving '' @ filePath @ '' with traditional methods:'')
                       (Some error))
                 (\<lambda>_. ret False)))"

definition diff_cached_cmd :: "string \<Rightarrow> string" where
  "diff_cached_cmd filePath = ''git diff --cached '' @ filePath"

definition getFileDiff :: "'w env \<Rightarrow> string \<Rightarrow> ('w, string option) prog" where
  "getFileDiff env filePath =
     try_catch
       (runCommand env (diff_cached_cmd filePath))
       (\<lambda>error.
          bind (console_error (''Error generating diff for '' @ filePath @ '':'') (Some error))
            (\<lambda>_. ret None))"

subsection \<open>postCommentToPR\<close>

definition comments_url :: "process_env \<Rightarrow> string option \<Rightarrow> string" where
  "comments_url penv pr =
     ''https://api.github.com/repos/'' @ to_str (penv ''GITHUB_REPOSITORY'')
       @ ''/issues/'' @ to_str pr @ ''/comments''"

definition postCommentToPR :: "process_env \<Rightarrow> 'w env \<Rightarrow> string \<Rightarrow> ('w, unit) prog" where
  "postCommentToPR penv env commentBody =
     try_catch
       (bind (call_axios_post env (comments_url penv (PR_NUMBER penv))
                (CommentBody commentBody)
                [(''Authorization'', ''Bearer '' @ to_str (GITHUB_TOKEN penv)),
                 (''Content-Type'', ''application/json'')])
          (\<lambda>_. console_log ''Comment posted to PR.''))
       (\<lambda>error. console_error ''Error postig comment to PR:'' (Some error))"

subsection \<open>The report strings\<close>

definition success_header :: string where
  "success_header =
     ''### '' @ [CHR 0xE2, CHR 0x9C, CHR 0x85]
       @ '' Successfully Resolved Files:\<newline>\<newline>''"

definition failure_header :: string where
  "failure_header =
     ''### '' @ [CHR 0xE2, CHR 0x9D, CHR 0x8C]
       @ '' Failed to Resolve Files:\<newline>\<newline>''"

definition ai_entry :: "string \<Rightarrow> string" where
  "ai_entry file = ''- `'' @ file @ ''` resolved with AI.\<newline>''"

definition ours_entry :: "string \<Rightarrow> string" where
  "ours_entry file = ''- `'' @ file @ ''` resolved with 'ours' strategy.\<newline>''"

definition traditional_failed_entry :: "string \<Rightarrow> string" where
  "traditional_failed_entry file =
     ''- `'' @ file @ ''` failed to resolve with traditional methods.\<newline>''"

definition error_entry :: "string \<Rightarrow> js_error \<Rightarrow> string" where
  "error_entry file error =
     ''- `'' @ file @ ''` failed due to error: '' @ err_message error @ ''\<newline>''"

definition diff_details :: "string \<Rightarrow> string \<Rightarrow> string" where
  "diff_details file diff =
     ''<details><summary>Diff for `'' @ file @ ''`</summary>\<newline>\<newline>```diff\<newline>''
       @ diff @ ''\<newline>```\<newline></details>\<newline>\<newline>''"

subsection \<open>main\<close>

text \<open>
  The body of \<^verbatim>\<open>for (const file of conflictedFiles)\<close> is one \<^verbatim>\<open>try\<close> of three
  blocks and its \<^verbatim>\<open>catch\<close>. The first block is \<^verbatim>\<open>let resolved = false\<close> with
  \<^verbatim>\<open>if (USE_AI) {...}\<close>; its value is \<^verbatim>\<open>resolved\<close> at the end of the block.
\<close>

definition ai_step :: "process_env \<Rightarrow> 'w env \<Rightarrow> string \<Rightarrow> ('w, bool) prog" where
  "ai_step penv env file =
     (if USE_AI penv then
        bind (console_log (''Attempting AI resolution for '' @ file @ ''...''))
          (\<lambda>_. bind (resolveWithAI penv env file)
          (\<lambda>aiResolvedContent.
             if truthy aiResolvedContent then
               bind (call_writeFileSync env file (to_str aiResolvedContent))
                 (\<lambda>_. bind (runCommand env (git_add_cmd file))
                 (\<lambda>_. bind (append_success (ai_entry file))
                 (\<lambda>_. ret True)))
             else
               bind (console_log (''AI resolution failed for '' @ file @ '', falling back...''))
                 (\<lambda>_. ret False)))
      else ret False)"

text \<open>The second block, \<^verbatim>\<open>if (!resolved) {...}\<close>; its value is \<^verbatim>\<open>resolved\<close> again.\<close>

definition fallback_step :: "'w env \<Rightarrow> string \<Rightarrow> bool \<Rightarrow> ('w, bool) prog" where
  "fallback_step env file resolved =
     (if \<not> resolved then
        bind (resolveManually env file)
          (\<lambda>resolved'.
             bind (if resolved' then append_success (ours_entry file)
                   else append_failure (traditional_failed_entry file))
               (\<lambda>_. ret resolved'))
      else ret resolved)"

text \<open>The third block, \<^verbatim>\<open>const diff = getFileDiff(file); if (diff) {...}\<close>.\<close>

definition diff_step :: "'w env \<Rightarrow> string \<Rightarrow> ('w, unit) prog" where
  "diff_step env file =
     bind (getFileDiff env file)
       (\<lambda>diff.
          if truthy diff then append_success (diff_details file (to_str diff))
          else ret ())"

definition resolve_file :: "process_env \<Rightarrow> 'w env \<Rightarrow> string \<Rightarrow> ('w, unit) prog" where
  "resolve_file penv env file =
     try_catch
       (bind (ai_step penv env file)
          (\<lambda>resolved. bind (fallback_step env file resolved)
          (\<lambda>_. diff_step env file)))
       (\<lambda>error.
          bind (console_error (''Error resolving '' @ file @ '':'') (Some error))
            (\<lambda>_. append_failure (error_entry file error)))"

primrec for_each :: "'a list \<Rightarrow> ('a \<Rightarrow> ('w, unit) prog) \<Rightarrow> ('w, unit) prog" where
  "for_each [] body = ret ()"
| "for_each (x # xs) body = bind (body x) (\<lambda>_. for_each xs body)"

definition commit_cmd :: string where
  "commit_cmd =
     ''git commit -m 'Auto-resolved conflicts with AI assistance or traditional methods''
       @ [CHR 0x27]"

text \<open>Reading and assigning the two report strings of \<^verbatim>\<open>main\<close>.\<close>

definition get_successComment :: "('w, string) prog" where
  "get_successComment s = (Value (successComment s), s)"

definition get_failureComment :: "('w, string) prog" where
  "get_failureComment s = (Value (failureComment s), s)"

definition set_successComment :: "string \<Rightarrow> ('w, unit) prog" where
  "set_successComment str s = (Value (), s\<lparr>successComment := str\<rparr>)"

definition set_failureComment :: "string \<Rightarrow> ('w, unit) prog" where
  "set_failureComment str s = (Value (), s\<lparr>failureComment := str\<rparr>)"

definition main :: "process_env \<Rightarrow> 'w env \<Rightarrow> ('w, unit) prog" where
  "main penv env =
     bind
       (if USE_AI penv \<and> \<not> truthy (OPENAI_API_KEY penv) then
          bind (console_error ''Error: OPENAI_API_KEY environment variable is not set.'' None)
            (\<lambda>_. process_exit 1)
        else ret ())
       (\<lambda>_. bind (getConflictedFiles env)
       (\<lambda>conflictedFiles.
          if length conflictedFiles = 0 then console_log ''No conflicts found.''
          else
            bind (console_log (''Conflicted files found: '' @ join '', '' conflictedFiles))
              (\<lambda>_. bind (set_successComment success_header)
              (\<lambda>_. bind (set_failureComment failure_header)
              (\<lambda>_. bind (for_each conflictedFiles (resolve_file penv env))
              (\<lambda>_. bind get_successComment
              (\<lambda>successNow.
                 bind (if successNow \<noteq> success_header
                       then bind (runCommand env commit_cmd) (\<lambda>_. ret ())
                       else ret ())
                   (\<lambda>_. bind get_successComment
                   (\<lambda>successFinal. bind get_failureComment
                   (\<lambda>failureFinal.
                      postCommentToPR penv env
                        (successFinal @ ''\<newline>'' @ failureFinal)))))))))))"

text \<open>
  The script's last statement: \<^verbatim>\<open>main().catch(...)\<close>. A run that returns ends the
  process with status 0; an error that escapes \<^verbatim>\<open>main\<close> is logged and the process exits
  with status 1; \<^verbatim>\<open>process.exit(n)\<close> inside \<^verbatim>\<open>main\<close> ends it with status \<open>n\<close>.
\<close>

definition initial :: "'w \<Rightarrow> 'w state" where
  "initial w = \<lparr>world = w, trace = [], successComment = [], failureComment = []\<rparr>"

definition finish :: "unit result \<times> 'w state \<Rightarrow> nat \<times> 'w state" where
  "finish rs =
     (case rs of
        (Value _, s) \<Rightarrow> (0, s)
      | (Raise error, s) \<Rightarrow>
          (1, s\<lparr>trace := trace s @ [ConsoleError ''Error in conflict resolution:'' (Some error)]\<rparr>)
      | (ProcessExit n, s) \<Rightarrow> (n, s))"

definition run_script :: "process_env \<Rightarrow> 'w env \<Rightarrow> 'w \<Rightarrow> nat \<times> 'w state" where
  "run_script penv env w = finish (main penv env (initial w))"

section \<open>The variant extra/resolve-conflict.js\<close>

text \<open>
  The file has \<^verbatim>\<open>runCommand\<close>, \<^verbatim>\<open>getConflictedFiles\<close> and the text of
  \<^verbatim>\<open>resolveWithAI\<close> and \<^verbatim>\<open>postCommentToPR\<close> in common with the pipeline, and no
  \<^verbatim>\<open>resolveManually\<close> and no \<^verbatim>\<open>getFileDiff\<close>. It reads the identifiers
  \<^verbatim>\<open>OPENAI_API_KEY\<close>, \<^verbatim>\<open>GITHUB_TOKEN\<close> and \<^verbatim>\<open>PR_NUMBER\<close> and declares none of
  them (the pipeline declares them from \<^verbatim>\<open>process.env\<close>). Reading an identifier that
  has no binding throws a ReferenceError, so the model takes the bindings of these three
  names as a parameter: \<open>None\<close> where the name is not bound, as in the file on its own,
  and \<open>Some v\<close> where it is bound to the value \<open>v\<close>.
\<close>

type_synonym bindings = "string \<rightharpoonup> string option"

definition reference_error :: "string \<Rightarrow> js_error" where
  "reference_error x = JsError ''ReferenceError'' (x @ '' is not defined'')"

definition read_var :: "bindings \<Rightarrow> string \<Rightarrow> ('w, string option) prog" where
  "read_var b x = (case b x of None \<Rightarrow> throw (reference_error x) | Some v \<Rightarrow> ret v)"

text \<open>
  \<^verbatim>\<open>main\<close> declares \<^verbatim>\<open>let body\<close> and then appends to \<^verbatim>\<open>commentBody\<close>, a name
  whose only declaration is the parameter of \<^verbatim>\<open>postCommentToPR\<close>. In \<^verbatim>\<open>main\<close> the
  name has no binding: \<^verbatim>\<open>commentBody += ...\<close> reads it first, and so does the argument
  of the last call, and the read throws.
\<close>

definition read_commentBody :: "('w, string) prog" where
  "read_commentBody = throw (reference_error ''commentBody'')"

definition append_commentBody :: "string \<Rightarrow> ('w, unit) prog" where
  "append_commentBody str = bind read_commentBody (\<lambda>old. ret ())"

definition resolveWithAI_extra :: "bindings \<Rightarrow> 'w env \<Rightarrow> string \<Rightarrow> ('w, string option) prog" where
  "resolveWithAI_extra b env filePath =
     bind (call_readFileSync env filePath)
       (\<lambda>fileContent. bind (read_var b ''OPENAI_API_KEY'')
       (\<lambda>key.
          bind (call_axios_post env completions_url
                  (CompletionBody ''text-davinci-003'' (ai_prompt fileContent) 1500)
                  [(''Authorization'', ''Bearer '' @ to_str key),
                   (''Content-Type'', ''application/json'')])
            first_choice_text))"

text \<open>
  \<^verbatim>\<open>fs.writeFileSync(file, aiResolvedContent, "utf-8")\<close> with no test of the content
  before it: Node checks the type of the data before it opens the file, and throws a
  TypeError for \<^verbatim>\<open>undefined\<close>.
\<close>

definition write_content :: "'w env \<Rightarrow> string \<Rightarrow> string option \<Rightarrow> ('w, unit) prog" where
  "write_content env filePath content =
     (case content of
        None \<Rightarrow>
          throw (JsError ''TypeError''
                   (''The '' @ [CHR 0x22] @ ''data'' @ [CHR 0x22]
                      @ '' argument must be of type string or an instance of Buffer, ''
                      @ ''TypedArray, or DataView. Received undefined''))
      | Some str \<Rightarrow> call_writeFileSync env filePath str)"

definition postCommentToPR_extra ::
  "bindings \<Rightarrow> process_env \<Rightarrow> 'w env \<Rightarrow> string \<Rightarrow> ('w, unit) prog" where
  "postCommentToPR_extra b penv env commentBody =
     try_catch
       (bind (read_var b ''PR_NUMBER'')
          (\<lambda>pr. bind (read_var b ''GITHUB_TOKEN'')
          (\<lambda>token.
             bind (call_axios_post env (comments_url penv pr)
                     (CommentBody commentBody)
                     [(''Authorization'', ''Bearer '' @ to_str token),
                      (''Content-Type'', ''application/json'')])
               (\<lambda>_. console_log ''Comment posted to PR.''))))
       (\<lambda>error. console_error ''Error postig comment to PR:'' (Some error))"

definition resolve_file_extra :: "bindings \<Rightarrow> 'w env \<Rightarrow> string \<Rightarrow> ('w, unit) prog" where
  "resolve_file_extra b env file =
     try_catch
       (bind (console_log (''Attempting AI resolution for '' @ file @ ''...''))
          (\<lambda>_. bind (resolveWithAI_extra b env file)
          (\<lambda>aiResolvedContent. bind (write_content env file aiResolvedContent)
          (\<lambda>_. bind (runCommand env (git_add_cmd file))
          (\<lambda>_. bind (console_log (''Resolved '' @ file @ '' with AI assistance.''))
          (\<lambda>_. append_commentBody
                  ([CHR 0xE2, CHR 0x9C, CHR 0x85] @ '' Resolved `'' @ file
                     @ ''` successfully.\<newline>'')))))))
       (\<lambda>error.
          bind (console_error (''Error resolving '' @ file @ '':'') (Some error))
            (\<lambda>_. append_commentBody
                    ([CHR 0xE2, CHR 0x9D, CHR 0x8C] @ '' Could not resolve `'' @ file @ ''`: ''
                       @ err_name error @ '': '' @ err_message error @ ''\<newline>'')))"

definition commit_cmd_extra :: string where
  "commit_cmd_extra = ''git commit -m 'Auto-resolved conflicts with AI assistance'' @ [CHR 0x27]"

definition main_extra :: "bindings \<Rightarrow> process_env \<Rightarrow> 'w env \<Rightarrow> ('w, unit) prog" where
  "main_extra b penv env =
     bind
       (bind (read_var b ''OPENAI_API_KEY'')
          (\<lambda>key. if \<not> truthy key then ret True
                  else bind (read_var b ''GITHUB_TOKEN'') (\<lambda>token. ret (\<not> truthy token))))
       (\<lambda>missing.
          bind
            (if missing then
               bind (console_error
                       ''Error: OPENAI_API_KEY or GITHUB_TOKEN environment variable is not set.''
                       None)
                 (\<lambda>_. process_exit 1)
             else ret ())
            (\<lambda>_. bind (getConflictedFiles env)
            (\<lambda>conflictedFiles.
               if length conflictedFiles = 0 then console_log ''No conflicts found.''
               else
                 bind (console_log (''Conflicted files found: '' @ join '', '' conflictedFiles))
                   (\<lambda>_. bind (for_each conflictedFiles (resolve_file_extra b env))
                   (\<lambda>_. bind (runCommand env commit_cmd_extra)
                   (\<lambda>_. bind read_commentBody
                   (\<lambda>commentBody. postCommentToPR_extra b penv env commentBody)))))))"

definition run_script_extra :: "bindings \<Rightarrow> process_env \<Rightarrow> 'w env \<Rightarrow> 'w \<Rightarrow> nat \<times> 'w state" where
  "run_script_extra b penv env w = finish (main_extra b penv env (initial w))"

section \<open>Example environments\<close>

text \<open>
  A scripted world for the concrete runs below: the world counts the calls made; the
  listing command answers \<open>listing\<close> and every other command prints nothing; every file
  reads as the same conflicted text; writes succeed; a completion request answers
  \<open>completion\<close> and a comment request answers \<open>comment\<close>.
\<close>

definition scripted_env ::
  "(js_error + string) \<Rightarrow> (js_error + response) \<Rightarrow> (js_error + response) \<Rightarrow> nat env" where
  "scripted_env listing completion comment =
     \<lparr>execSync = (\<lambda>command w. (if command = list_unmerged_cmd then listing else Inr [], Suc w)),
      readFileSync = (\<lambda>filePath w. (Inr ''<<<<<<< HEAD'', Suc w)),
      writeFileSync = (\<lambda>filePath content w. (None, Suc w)),
      axios_post = (\<lambda>url body headers w.
                      (case body of
                         CompletionBody _ _ _ \<Rightarrow> completion
                       | CommentBody _ \<Rightarrow> comment, Suc w))\<rparr>"

text \<open>A world where every command, read, write and request fails.\<close>

definition failing_env :: "nat env" where
  "failing_env =
     \<lparr>execSync = (\<lambda>command w. (Inl (JsError ''Error'' ''Command failed''), Suc w)),
      readFileSync = (\<lambda>filePath w. (Inl (JsError ''Error'' ''ENOENT''), Suc w)),
      writeFileSync = (\<lambda>filePath content w. (Some (JsError ''Error'' ''EACCES''), Suc w)),
      axios_post = (\<lambda>url body headers w. (Inl (JsError ''AxiosError'' ''Network Error''), Suc w))\<rparr>"

definition ai_on :: process_env where
  "ai_on = [''USE_AI'' \<mapsto> ''true'', ''OPENAI_API_KEY'' \<mapsto> ''sk-test'',
            ''GITHUB_TOKEN'' \<mapsto> ''ghs-test'', ''PR_NUMBER'' \<mapsto> ''7'',
            ''GITHUB_REPOSITORY'' \<mapsto> ''louislam/uptime-kuma'']"

definition ai_off :: process_env where
  "ai_off = [''GITHUB_TOKEN'' \<mapsto> ''ghs-test'', ''PR_NUMBER'' \<mapsto> ''7'',
             ''GITHUB_REPOSITORY'' \<mapsto> ''louislam/uptime-kuma'']"

definition ai_on_no_key :: process_env where
  "ai_on_no_key = [''USE_AI'' \<mapsto> ''true'', ''GITHUB_TOKEN'' \<mapsto> ''ghs-test'']"

text \<open>The variant's three names bound as the pipeline binds them, with both credentials set.\<close>

definition both_bound :: bindings where
  "both_bound = [''OPENAI_API_KEY'' \<mapsto> Some ''sk-test'', ''GITHUB_TOKEN'' \<mapsto> Some ''ghs-test'',
                 ''PR_NUMBER'' \<mapsto> Some ''7'']"

definition merged_answer :: "js_error + response" where
  "merged_answer = Inr (Response (Some [Choice (Some ''merged text'')]))"

definition empty_answer :: "js_error + response" where
  "empty_answer = Inr (Response (Some [Choice (Some [])]))"

definition network_error :: js_error where
  "network_error = JsError ''AxiosError'' ''Network Error''"

section \<open>Reading a run\<close>

text \<open>The paths the Conflict Detector returns when the run starts in world \<open>w\<close>.\<close>

definition conflicted_paths :: "'w env \<Rightarrow> 'w \<Rightarrow> string list" where
  "conflicted_paths env w =
     (case fst (getConflictedFiles env (initial w)) of
        Value files \<Rightarrow> files
      | Raise e \<Rightarrow> []
      | ProcessExit n \<Rightarrow> [])"

text \<open>
  The report as rows: a path, its outcome, and the staged diff that \<^verbatim>\<open>getFileDiff\<close>
  returned for it. The success section renders the rows that resolved, each followed by
  its diff when there is one; the failure section renders the rows that failed.
\<close>

datatype outcome = AI_RESOLVED | FALLBACK_RESOLVED | FAILED js_error

type_synonym report_row = "string \<times> outcome \<times> string option"

definition diff_part :: "string \<Rightarrow> string option \<Rightarrow> string" where
  "diff_part file diff = (if truthy diff then diff_details file (to_str diff) else [])"

fun success_row :: "report_row \<Rightarrow> string" where
  "success_row (file, AI_RESOLVED, diff) = ai_entry file @ diff_part file diff"
| "success_row (file, FALLBACK_RESOLVED, diff) = ours_entry file @ diff_part file diff"
| "success_row (file, FAILED e, diff) = []"

fun failure_row :: "report_row \<Rightarrow> string" where
  "failure_row (file, AI_RESOLVED, diff) = []"
| "failure_row (file, FALLBACK_RESOLVED, diff) = []"
| "failure_row (file, FAILED e, diff) = error_entry file e"

fun is_success :: "report_row \<Rightarrow> bool" where
  "is_success (file, AI_RESOLVED, diff) = True"
| "is_success (file, FALLBACK_RESOLVED, diff) = True"
| "is_success (file, FAILED e, diff) = False"

fun is_fallback :: "report_row \<Rightarrow> bool" where
  "is_fallback (file, AI_RESOLVED, diff) = False"
| "is_fallback (file, FALLBACK_RESOLVED, diff) = True"
| "is_fallback (file, FAILED e, diff) = False"

definition success_text :: "report_row list \<Rightarrow> string" where
  "success_text rows = concat (map success_row rows)"

definition failure_text :: "report_row list \<Rightarrow> string" where
  "failure_text rows = concat (map failure_row rows)"

text \<open>What \<^verbatim>\<open>postCommentToPR\<close> sends and what it logs for the answer.\<close>

definition post_log :: "(js_error + response) \<Rightarrow> event" where
  "post_log r =
     (case r of
        Inl e \<Rightarrow> ConsoleError ''Error postig comment to PR:'' (Some e)
      | Inr resp \<Rightarrow> ConsoleLog ''Comment posted to PR.'')"

definition completion_headers :: "process_env \<Rightarrow> (string \<times> string) list" where
  "completion_headers penv =
     [(''Authorization'', ''Bearer '' @ to_str (OPENAI_API_KEY penv)),
      (''Content-Type'', ''application/json'')]"

definition comment_headers :: "process_env \<Rightarrow> (string \<times> string) list" where
  "comment_headers penv =
     [(''Authorization'', ''Bearer '' @ to_str (GITHUB_TOKEN penv)),
      (''Content-Type'', ''application/json'')]"

text \<open>Kinds of calls in a trace.\<close>

fun is_console :: "event \<Rightarrow> bool" where
  "is_console (ConsoleLog msg) = True"
| "is_console (ConsoleError msg err) = True"
| "is_console ev = False"

fun is_completion_request :: "event \<Rightarrow> bool" where
  "is_completion_request (HttpPost url (CompletionBody model prompt max_tokens) headers) = True"
| "is_completion_request ev = False"

fun is_comment_request :: "event \<Rightarrow> bool" where
  "is_comment_request (HttpPost url (CommentBody body) headers) = True"
| "is_comment_request ev = False"

fun is_checkout_ours :: "event \<Rightarrow> bool" where
  "is_checkout_ours (Exec command) = (take 19 command = ''git checkout --ours'')"
| "is_checkout_ours ev = False"

fun is_commit :: "event \<Rightarrow> bool" where
  "is_commit (Exec command) = (take 10 command = ''git commit'')"
| "is_commit ev = False"

text \<open>The events a run of the variant can add: no commit, no fallback checkout, no comment.\<close>

definition variant_event :: "event \<Rightarrow> bool" where
  "variant_event ev = (\<not> is_commit ev \<and> \<not> is_checkout_ours ev \<and> \<not> is_comment_request ev)"

text \<open>
  Three properties of a program, for every state it starts in: the events it adds to the
  trace all satisfy \<open>P\<close>; it leaves the two report strings as they are; it completes
  with a value.
\<close>

definition emits :: "(event \<Rightarrow> bool) \<Rightarrow> ('w, 'a) prog \<Rightarrow> bool" where
  "emits P m = (\<forall>s. \<exists>evs. trace (snd (m s)) = trace s @ evs \<and> list_all P evs)"

definition quiet :: "('w, 'a) prog \<Rightarrow> bool" where
  "quiet m = (\<forall>s. successComment (snd (m s)) = successComment s
                \<and> failureComment (snd (m s)) = failureComment s)"

definition returns :: "('w, 'a) prog \<Rightarrow> bool" where
  "returns m = (\<forall>s. \<exists>x. fst (m s) = Value x)"

definition no_exit :: "('w, 'a) prog \<Rightarrow> bool" where
  "no_exit m = (\<forall>s n. fst (m s) \<noteq> ProcessExit n)"

section \<open>Rules for the properties of programs\<close>

subsection \<open>Stepping through a sequence\<close>

lemma trim_Nil: "trim [] = []"
  by (simp add: trim_def strip_leading.simps[of _ "[]"] leading_match_def white_space_def)

lemma bind_Value: "m s = (Value x, s') \<Longrightarrow> bind m f s = f x s'"
  by (simp add: bind_def)

lemma bind_Raise: "m s = (Raise e, s') \<Longrightarrow> bind m f s = (Raise e, s')"
  by (simp add: bind_def)

lemma try_catch_Value: "m s = (Value x, s') \<Longrightarrow> try_catch m h s = (Value x, s')"
  by (simp add: try_catch_def)

lemma try_catch_Raise: "m s = (Raise e, s') \<Longrightarrow> try_catch m h s = h e s'"
  by (simp add: try_catch_def)

lemma returnsD: "returns m \<Longrightarrow> \<exists>x s'. m s = (Value x, s')"
  unfolding returns_def by (metis prod.collapse)

subsection \<open>Which events a program adds\<close>

lemma emits_ret: "emits P (ret x)"
  by (simp add: emits_def ret_def)

lemma emits_throw: "emits P (throw e)"
  by (simp add: emits_def throw_def)

lemma emits_process_exit: "emits P (process_exit n)"
  by (simp add: emits_def process_exit_def)

lemma emits_emit: "P ev \<Longrightarrow> emits P (emit ev)"
  by (simp add: emits_def emit_def)

lemma emits_console_log: "P (ConsoleLog msg) \<Longrightarrow> emits P (console_log msg)"
  by (simp add: console_log_def emits_emit)

lemma emits_console_error: "P (ConsoleError msg err) \<Longrightarrow> emits P (console_error msg err)"
  by (simp add: console_error_def emits_emit)

lemma emits_bind:
  assumes "emits P m" and "\<And>x. emits P (f x)"
  shows "emits P (bind m f)"
  unfolding emits_def
proof
  fix s
  obtain r s1 where ms: "m s = (r, s1)" by (cases "m s")
  from assms(1) obtain evs where e1: "trace s1 = trace s @ evs" "list_all P evs"
    unfolding emits_def using ms by (metis snd_conv)
  show "\<exists>evs. trace (snd (bind m f s)) = trace s @ evs \<and> list_all P evs"
  proof (cases r)
    case (Value x)
    from assms(2)[of x] obtain evs' where e2: "trace (snd (f x s1)) = trace s1 @ evs'" "list_all P evs'"
      unfolding emits_def by blast
    have "trace (snd (bind m f s)) = trace s @ (evs @ evs')"
      using ms Value e1 e2 by (simp add: bind_def)
    moreover have "list_all P (evs @ evs')" using e1 e2 by simp
    ultimately show ?thesis by blast
  next
    case (Raise e)
    then show ?thesis using ms e1 by (auto simp: bind_def)
  next
    case (ProcessExit n)
    then show ?thesis using ms e1 by (auto simp: bind_def)
  qed
qed

lemma emits_try_catch:
  assumes "emits P m" and "\<And>e. emits P (h e)"
  shows "emits P (try_catch m h)"
  unfolding emits_def
proof
  fix s
  obtain r s1 where ms: "m s = (r, s1)" by (cases "m s")
  from assms(1) obtain evs where e1: "trace s1 = trace s @ evs" "list_all P evs"
    unfolding emits_def using ms by (metis snd_conv)
  show "\<exists>evs. trace (snd (try_catch m h s)) = trace s @ evs \<and> list_all P evs"
  proof (cases r)
    case (Raise e)
    from assms(2)[of e] obtain evs' where e2: "trace (snd (h e s1)) = trace s1 @ evs'" "list_all P evs'"
      unfolding emits_def by blast
    have "trace (snd (try_catch m h s)) = trace s @ (evs @ evs')"
      using ms Raise e1 e2 by (simp add: try_catch_def)
    moreover have "list_all P (evs @ evs')" using e1 e2 by simp
    ultimately show ?thesis by blast
  next
    case (Value x)
    then show ?thesis using ms e1 by (auto simp: try_catch_def)
  next
    case (ProcessExit n)
    then show ?thesis using ms e1 by (auto simp: try_catch_def)
  qed
qed

lemma emits_if:
  "(c \<Longrightarrow> emits P a) \<Longrightarrow> (\<not> c \<Longrightarrow> emits P b) \<Longrightarrow> emits P (if c then a else b)"
  by simp

lemma emits_for_each: "(\<And>x. emits P (body x)) \<Longrightarrow> emits P (for_each xs body)"
  by (induction xs) (simp_all add: emits_ret emits_bind)

lemma emits_call_execSync: "P (Exec command) \<Longrightarrow> emits P (call_execSync env command)"
  by (auto simp: emits_def call_execSync_def Let_def split: prod.splits sum.splits)

lemma emits_call_readFileSync: "P (ReadFile filePath) \<Longrightarrow> emits P (call_readFileSync env filePath)"
  by (auto simp: emits_def call_readFileSync_def Let_def split: prod.splits sum.splits)

lemma emits_call_writeFileSync:
  "P (WriteFile filePath content) \<Longrightarrow> emits P (call_writeFileSync env filePath content)"
  by (auto simp: emits_def call_writeFileSync_def Let_def split: prod.splits option.splits)

lemma emits_call_axios_post:
  "P (HttpPost url body headers) \<Longrightarrow> emits P (call_axios_post env url body headers)"
  by (auto simp: emits_def call_axios_post_def Let_def split: prod.splits sum.splits)

lemma emits_append_success: "emits P (append_success str)"
  by (simp add: emits_def append_success_def)

lemma emits_append_failure: "emits P (append_failure str)"
  by (simp add: emits_def append_failure_def)

lemma emits_get_successComment: "emits P get_successComment"
  by (simp add: emits_def get_successComment_def)

lemma emits_get_failureComment: "emits P get_failureComment"
  by (simp add: emits_def get_failureComment_def)

lemma emits_set_successComment: "emits P (set_successComment str)"
  by (simp add: emits_def set_successComment_def)

lemma emits_set_failureComment: "emits P (set_failureComment str)"
  by (simp add: emits_def set_failureComment_def)

lemma emits_first_choice_text: "emits P (first_choice_text resp)"
  by (simp add: first_choice_text_def emits_ret emits_throw split: option.splits list.splits)

lemmas emits_rules =
  emits_ret emits_throw emits_process_exit emits_bind emits_try_catch emits_if emits_for_each
  emits_console_log emits_console_error emits_call_execSync emits_call_readFileSync
  emits_call_writeFileSync emits_call_axios_post emits_append_success emits_append_failure
  emits_get_successComment emits_get_failureComment emits_set_successComment
  emits_set_failureComment emits_first_choice_text

lemma emits_runCommand:
  assumes "P (Exec command)" and "\<And>ev. is_console ev \<Longrightarrow> P ev"
  shows "emits P (runCommand env command)"
  unfolding runCommand_def by (intro emits_rules assms) (simp_all add: assms)

lemma emits_getConflictedFiles:
  assumes "P (Exec list_unmerged_cmd)" and "\<And>ev. is_console ev \<Longrightarrow> P ev"
  shows "emits P (getConflictedFiles env)"
  unfolding getConflictedFiles_def by (intro emits_rules emits_runCommand assms) 

lemma emits_resolveManually:
  assumes "P (Exec (checkout_ours_cmd filePath))" and "P (Exec (git_add_cmd filePath))"
    and "\<And>ev. is_console ev \<Longrightarrow> P ev"
  shows "emits P (resolveManually env filePath)"
  unfolding resolveManually_def by (intro emits_rules emits_runCommand assms) (simp_all add: assms)

lemma emits_getFileDiff:
  assumes "P (Exec (diff_cached_cmd filePath))" and "\<And>ev. is_console ev \<Longrightarrow> P ev"
  shows "emits P (getFileDiff env filePath)"
  unfolding getFileDiff_def by (intro emits_rules emits_runCommand assms) (simp_all add: assms)

lemma emits_resolveWithAI:
  assumes "P (ReadFile filePath)"
    and "\<And>url model prompt n headers. P (HttpPost url (CompletionBody model prompt n) headers)"
  shows "emits P (resolveWithAI penv env filePath)"
  unfolding resolveWithAI_def by (intro emits_rules assms)

lemma emits_postCommentToPR:
  assumes "\<And>url headers. P (HttpPost url (CommentBody commentBody) headers)"
    and "\<And>ev. is_console ev \<Longrightarrow> P ev"
  shows "emits P (postCommentToPR penv env commentBody)"
  unfolding postCommentToPR_def by (intro emits_rules assms) (simp_all add: assms)

subsection \<open>Which programs cannot leave the process\<close>

lemma no_exit_ret: "no_exit (ret x)"
  by (simp add: no_exit_def ret_def)
lemma no_exit_throw: "no_exit (throw e)"
  by (simp add: no_exit_def throw_def)
lemma no_exit_emit: "no_exit (emit ev)"
  by (simp add: no_exit_def emit_def)
lemma no_exit_console_log: "no_exit (console_log msg)"
  by (simp add: console_log_def no_exit_emit)
lemma no_exit_console_error: "no_exit (console_error msg err)"
  by (simp add: console_error_def no_exit_emit)

lemma no_exit_bind:
  assumes "no_exit m" and "\<And>x. no_exit (f x)"
  shows "no_exit (bind m f)"
  unfolding no_exit_def
proof (intro allI)
  fix s n
  obtain r s1 where ms: "m s = (r, s1)" by (cases "m s")
  show "fst (bind m f s) \<noteq> ProcessExit n"
  proof (cases r)
    case (Value x)
    then show ?thesis using ms assms(2)[of x] by (simp add: bind_def no_exit_def)
  next
    case (Raise e)
    then show ?thesis using ms by (simp add: bind_def)
  next
    case (ProcessExit k)
    then show ?thesis using ms assms(1) by (metis fst_conv no_exit_def)
  qed
qed

lemma no_exit_try_catch:
  assumes "no_exit m" and "\<And>e. no_exit (h e)"
  shows "no_exit (try_catch m h)"
  unfolding no_exit_def
proof (intro allI)
  fix s n
  obtain r s1 where ms: "m s = (r, s1)" by (cases "m s")
  show "fst (try_catch m h s) \<noteq> ProcessExit n"
  proof (cases r)
    case (Value x)
    then show ?thesis using ms by (simp add: try_catch_def)
  next
    case (Raise e)
    then show ?thesis using ms assms(2)[of e] by (simp add: try_catch_def no_exit_def)
  next
    case (ProcessExit k)
    then show ?thesis using ms assms(1) by (metis fst_conv no_exit_def)
  qed
qed

lemma no_exit_if:
  "(c \<Longrightarrow> no_exit a) \<Longrightarrow> (\<not> c \<Longrightarrow> no_exit b) \<Longrightarrow> no_exit (if c then a else b)"
  by simp

lemma no_exit_call_execSync: "no_exit (call_execSync env command)"
  by (auto simp: no_exit_def call_execSync_def Let_def split: prod.splits sum.splits)

lemma no_exit_call_readFileSync: "no_exit (call_readFileSync env filePath)"
  by (auto simp: no_exit_def call_readFileSync_def Let_def split: prod.splits sum.splits)

lemma no_exit_call_writeFileSync: "no_exit (call_writeFileSync env filePath content)"
  by (auto simp: no_exit_def call_writeFileSync_def Let_def split: prod.splits option.splits)

lemma no_exit_call_axios_post: "no_exit (call_axios_post env url body headers)"
  by (auto simp: no_exit_def call_axios_post_def Let_def split: prod.splits sum.splits)

lemma no_exit_first_choice_text: "no_exit (first_choice_text resp)"
  by (simp add: first_choice_text_def no_exit_ret no_exit_throw split: option.splits list.splits)

lemma no_exit_append_success: "no_exit (append_success str)"
  by (simp add: no_exit_def append_success_def)

lemmas no_exit_rules =
  no_exit_ret no_exit_throw no_exit_bind no_exit_try_catch no_exit_if no_exit_console_log
  no_exit_console_error no_exit_call_execSync no_exit_call_readFileSync
  no_exit_call_writeFileSync no_exit_call_axios_post no_exit_first_choice_text
  no_exit_append_success

subsection \<open>Which programs always return\<close>

lemma returns_ret: "returns (ret x)"
  by (simp add: returns_def ret_def)
lemma returns_emit: "returns (emit ev)"
  by (simp add: returns_def emit_def)
lemma returns_console_log: "returns (console_log msg)"
  by (simp add: console_log_def returns_emit)
lemma returns_console_error: "returns (console_error msg err)"
  by (simp add: console_error_def returns_emit)
lemma returns_append_success: "returns (append_success str)"
  by (simp add: returns_def append_success_def)
lemma returns_append_failure: "returns (append_failure str)"
  by (simp add: returns_def append_failure_def)

lemma returns_bind:
  assumes "returns m" and "\<And>x. returns (f x)"
  shows "returns (bind m f)"
  unfolding returns_def
proof
  fix s
  from returnsD[OF assms(1)] obtain x s1 where ms: "m s = (Value x, s1)" by blast
  then show "\<exists>y. fst (bind m f s) = Value y"
    using assms(2)[of x] by (simp add: bind_def returns_def)
qed

lemma returns_try_catch:
  assumes "no_exit m" and "\<And>e. returns (h e)"
  shows "returns (try_catch m h)"
  unfolding returns_def
proof
  fix s
  obtain r s1 where ms: "m s = (r, s1)" by (cases "m s")
  show "\<exists>y. fst (try_catch m h s) = Value y"
  proof (cases r)
    case (Value x)
    then show ?thesis using ms by (simp add: try_catch_def)
  next
    case (Raise e)
    then show ?thesis using ms assms(2)[of e] by (simp add: try_catch_def returns_def)
  next
    case (ProcessExit k)
    then show ?thesis using ms assms(1) by (metis fst_conv no_exit_def)
  qed
qed

lemma returns_if:
  "(c \<Longrightarrow> returns a) \<Longrightarrow> (\<not> c \<Longrightarrow> returns b) \<Longrightarrow> returns (if c then a else b)"
  by simp

lemmas returns_rules =
  returns_ret returns_bind returns_try_catch returns_if returns_console_log
  returns_console_error returns_append_success returns_append_failure

lemma returns_runCommand: "returns (runCommand env command)"
  unfolding runCommand_def by (intro returns_rules no_exit_rules)

lemma returns_getFileDiff: "returns (getFileDiff env filePath)"
  unfolding getFileDiff_def
  by (intro returns_rules no_exit_rules) (simp add: runCommand_def no_exit_rules)

lemma no_exit_runCommand: "no_exit (runCommand env command)"
  unfolding runCommand_def by (intro no_exit_rules)

lemma returns_postCommentToPR: "returns (postCommentToPR penv env commentBody)"
  unfolding postCommentToPR_def by (intro returns_rules no_exit_rules)

lemma returns_getConflictedFiles: "returns (getConflictedFiles env)"
  unfolding getConflictedFiles_def by (intro returns_rules returns_runCommand)

subsection \<open>Which programs leave the report alone\<close>

lemma quiet_ret: "quiet (ret x)"
  by (simp add: quiet_def ret_def)
lemma quiet_throw: "quiet (throw e)"
  by (simp add: quiet_def throw_def)
lemma quiet_emit: "quiet (emit ev)"
  by (simp add: quiet_def emit_def)
lemma quiet_console_log: "quiet (console_log msg)"
  by (simp add: console_log_def quiet_emit)
lemma quiet_console_error: "quiet (console_error msg err)"
  by (simp add: console_error_def quiet_emit)

lemma quiet_bind:
  assumes "quiet m" and "\<And>x. quiet (f x)"
  shows "quiet (bind m f)"
  unfolding quiet_def
proof
  fix s
  obtain r s1 where ms: "m s = (r, s1)" by (cases "m s")
  have q1: "successComment s1 = successComment s \<and> failureComment s1 = failureComment s"
    using assms(1) ms unfolding quiet_def by (metis snd_conv)
  show "successComment (snd (bind m f s)) = successComment s \<and>
        failureComment (snd (bind m f s)) = failureComment s"
  proof (cases r)
    case (Value x)
    then show ?thesis using ms q1 assms(2)[of x] by (simp add: bind_def quiet_def)
  next
    case (Raise e)
    then show ?thesis using ms q1 by (simp add: bind_def)
  next
    case (ProcessExit k)
    then show ?thesis using ms q1 by (simp add: bind_def)
  qed
qed

lemma quiet_try_catch:
  assumes "quiet m" and "\<And>e. quiet (h e)"
  shows "quiet (try_catch m h)"
  unfolding quiet_def
proof
  fix s
  obtain r s1 where ms: "m s = (r, s1)" by (cases "m s")
  have q1: "successComment s1 = successComment s \<and> failureComment s1 = failureComment s"
    using assms(1) ms unfolding quiet_def by (metis snd_conv)
  show "successComment (snd (try_catch m h s)) = successComment s \<and>
        failureComment (snd (try_catch m h s)) = failureComment s"
  proof (cases r)
    case (Value x)
    then show ?thesis using ms q1 by (simp add: try_catch_def)
  next
    case (Raise e)
    then show ?thesis using ms q1 assms(2)[of e] by (simp add: try_catch_def quiet_def)
  next
    case (ProcessExit k)
    then show ?thesis using ms q1 by (simp add: try_catch_def)
  qed
qed

lemma quiet_call_execSync: "quiet (call_execSync env command)"
  by (auto simp: quiet_def call_execSync_def Let_def split: prod.splits sum.splits)

lemma quiet_call_readFileSync: "quiet (call_readFileSync env filePath)"
  by (auto simp: quiet_def call_readFileSync_def Let_def split: prod.splits sum.splits)

lemma quiet_call_writeFileSync: "quiet (call_writeFileSync env filePath content)"
  by (auto simp: quiet_def call_writeFileSync_def Let_def split: prod.splits option.splits)

lemma quiet_call_axios_post: "quiet (call_axios_post env url body headers)"
  by (auto simp: quiet_def call_axios_post_def Let_def split: prod.splits sum.splits)

lemma quiet_first_choice_text: "quiet (first_choice_text resp)"
  by (simp add: first_choice_text_def quiet_ret quiet_throw split: option.splits list.splits)

lemmas quiet_rules =
  quiet_ret quiet_throw quiet_bind quiet_try_catch quiet_console_log quiet_console_error
  quiet_call_execSync quiet_call_readFileSync quiet_call_writeFileSync quiet_call_axios_post
  quiet_first_choice_text

lemma quiet_runCommand: "quiet (runCommand env command)"
  unfolding runCommand_def by (intro quiet_rules)

lemma quiet_getFileDiff: "quiet (getFileDiff env filePath)"
  unfolding getFileDiff_def by (intro quiet_rules quiet_runCommand)

lemma quiet_resolveWithAI: "quiet (resolveWithAI penv env filePath)"
  unfolding resolveWithAI_def by (intro quiet_rules)

lemma no_exit_resolveWithAI: "no_exit (resolveWithAI penv env filePath)"
  unfolding resolveWithAI_def by (intro no_exit_rules)

lemma quiet_postCommentToPR: "quiet (postCommentToPR penv env commentBody)"
  unfolding postCommentToPR_def by (intro quiet_rules)

lemma quiet_getConflictedFiles: "quiet (getConflictedFiles env)"
  unfolding getConflictedFiles_def by (intro quiet_rules quiet_runCommand)

lemma quietD:
  "quiet m \<Longrightarrow> m s = (r, s') \<Longrightarrow>
     successComment s' = successComment s \<and> failureComment s' = failureComment s"
  unfolding quiet_def by (metis snd_conv)

section \<open>The fallback resolver\<close>

lemma resolveManually_True:
  "\<exists>s'. resolveManually env filePath s = (Value True, s')
        \<and> successComment s' = successComment s \<and> failureComment s' = failureComment s"
proof -
  let ?s1 = "s\<lparr>trace := trace s @ [ConsoleLog (''Resolving conflict manually in '' @ filePath)]\<rparr>"
  obtain r1 s2 where b: "runCommand env (checkout_ours_cmd filePath) ?s1 = (Value r1, s2)"
    using returnsD[OF returns_runCommand] by blast
  obtain r2 s3 where c: "runCommand env (git_add_cmd filePath) s2 = (Value r2, s3)"
    using returnsD[OF returns_runCommand] by blast
  have "fst (resolveManually env filePath s) = Value True"
    unfolding resolveManually_def using b c
    by (simp add: bind_def try_catch_def ret_def console_log_def emit_def)
  moreover have "successComment (snd (resolveManually env filePath s)) = successComment s
      \<and> failureComment (snd (resolveManually env filePath s)) = failureComment s"
    unfolding resolveManually_def using b c quietD[OF quiet_runCommand b] quietD[OF quiet_runCommand c]
    by (simp add: bind_def try_catch_def ret_def console_log_def emit_def)
  ultimately show ?thesis by (metis prod.collapse)
qed

section \<open>One conflicted file\<close>

lemma ai_step_off: "\<not> USE_AI penv \<Longrightarrow> ai_step penv env file s = (Value False, s)"
  by (simp add: ai_step_def ret_def)

lemma ai_step_cases:
  "(\<exists>s'. ai_step penv env file s = (Value True, s')
         \<and> successComment s' = successComment s @ ai_entry file
         \<and> failureComment s' = failureComment s)
   \<or> (\<exists>s'. ai_step penv env file s = (Value False, s')
         \<and> successComment s' = successComment s \<and> failureComment s' = failureComment s)
   \<or> (\<exists>e s'. ai_step penv env file s = (Raise e, s')
         \<and> successComment s' = successComment s \<and> failureComment s' = failureComment s)"
proof (cases "USE_AI penv")
  case False
  then show ?thesis by (simp add: ai_step_off)
next
  case True
  let ?s1 = "s\<lparr>trace := trace s @ [ConsoleLog (''Attempting AI resolution for '' @ file @ ''...'')]\<rparr>"
  obtain r s2 where ai: "resolveWithAI penv env file ?s1 = (r, s2)"
    by (cases "resolveWithAI penv env file ?s1")
  have q2: "successComment s2 = successComment s \<and> failureComment s2 = failureComment s"
    using quietD[OF quiet_resolveWithAI ai] by simp
  show ?thesis
  proof (cases r)
    case (ProcessExit n)
    then show ?thesis using ai no_exit_resolveWithAI[of penv env]
      by (metis fst_conv no_exit_def)
  next
    case (Raise e)
    then have "ai_step penv env file s = (Raise e, s2)"
      using True ai by (simp add: ai_step_def bind_def console_log_def emit_def)
    then show ?thesis using q2 by simp
  next
    case (Value content)
    show ?thesis
    proof (cases "truthy content")
      case False
      then have "\<exists>s'. ai_step penv env file s = (Value False, s')
          \<and> successComment s' = successComment s \<and> failureComment s' = failureComment s"
        using True ai Value q2
        by (simp add: ai_step_def bind_def console_log_def emit_def ret_def)
      then show ?thesis by blast
    next
      case truthy: True
      obtain rw s3 where w: "call_writeFileSync env file (to_str content) s2 = (rw, s3)"
        by (cases "call_writeFileSync env file (to_str content) s2")
      have q3: "successComment s3 = successComment s \<and> failureComment s3 = failureComment s"
        using quietD[OF quiet_call_writeFileSync w] q2 by simp
      show ?thesis
      proof (cases rw)
        case (ProcessExit n)
        then show ?thesis using w no_exit_call_writeFileSync[of env _ "to_str content"]
          by (metis fst_conv no_exit_def)
      next
        case (Raise e)
        then have "ai_step penv env file s = (Raise e, s3)"
          using True ai Value truthy w
          by (simp add: ai_step_def bind_def console_log_def emit_def)
        then show ?thesis using q3 by simp
      next
        case written: (Value u)
        obtain r4 s4 where add: "runCommand env (git_add_cmd file) s3 = (Value r4, s4)"
          using returnsD[OF returns_runCommand] by blast
        have q4: "successComment s4 = successComment s \<and> failureComment s4 = failureComment s"
          using quietD[OF quiet_runCommand add] q3 by simp
        have "ai_step penv env file s
              = (Value True, s4\<lparr>successComment := successComment s4 @ ai_entry file\<rparr>)"
          using True ai Value truthy w written add
          by (simp add: ai_step_def bind_def console_log_def emit_def ret_def append_success_def)
        then show ?thesis using q4 by simp
      qed
    qed
  qed
qed

lemma fallback_step_True: "fallback_step env file True s = (Value True, s)"
  by (simp add: fallback_step_def ret_def)

lemma fallback_step_False:
  "\<exists>s'. fallback_step env file False s = (Value True, s')
        \<and> successComment s' = successComment s @ ours_entry file
        \<and> failureComment s' = failureComment s"
proof -
  obtain s1 where m: "resolveManually env file s = (Value True, s1)"
    and q: "successComment s1 = successComment s" "failureComment s1 = failureComment s"
    using resolveManually_True by blast
  have "fallback_step env file False s
        = (Value True, s1\<lparr>successComment := successComment s1 @ ours_entry file\<rparr>)"
    using m by (simp add: fallback_step_def bind_def append_success_def ret_def)
  then show ?thesis using q by simp
qed

lemma diff_step_run:
  "\<exists>diff s'. diff_step env file s = (Value (), s')
        \<and> successComment s' = successComment s @ diff_part file diff
        \<and> failureComment s' = failureComment s"
proof -
  obtain diff s1 where d: "getFileDiff env file s = (Value diff, s1)"
    using returnsD[OF returns_getFileDiff] by blast
  have q: "successComment s1 = successComment s \<and> failureComment s1 = failureComment s"
    using quietD[OF quiet_getFileDiff d] .
  have "diff_step env file s
        = (Value (), s1\<lparr>successComment := successComment s1 @ diff_part file diff\<rparr>)"
    using d by (simp add: diff_step_def bind_def diff_part_def append_success_def ret_def)
  then show ?thesis using q by auto
qed

lemma resolve_file_row:
  "\<exists>row s'. resolve_file penv env file s = (Value (), s')
        \<and> fst row = file
        \<and> successComment s' = successComment s @ success_row row
        \<and> failureComment s' = failureComment s @ failure_row row
        \<and> (\<not> USE_AI penv \<longrightarrow> is_fallback row)
        \<and> (case fst (ai_step penv env file s) of
             Raise e \<Rightarrow> row = (file, FAILED e, None)
           | Value resolved \<Rightarrow> is_success row
           | ProcessExit n \<Rightarrow> False)"
proof -
  consider
    (ai) s1 where "ai_step penv env file s = (Value True, s1)"
      "successComment s1 = successComment s @ ai_entry file"
      "failureComment s1 = failureComment s"
  | (fall) s1 where "ai_step penv env file s = (Value False, s1)"
      "successComment s1 = successComment s" "failureComment s1 = failureComment s"
  | (err) e s1 where "ai_step penv env file s = (Raise e, s1)"
      "successComment s1 = successComment s" "failureComment s1 = failureComment s"
    using ai_step_cases[of penv env _ s] by blast
  then show ?thesis
  proof cases
    case ai
    have on: "USE_AI penv" using ai(1) ai_step_off[of penv env "file" s] by (cases "USE_AI penv") simp_all
    obtain diff s2 where d: "diff_step env file s1 = (Value (), s2)"
      "successComment s2 = successComment s1 @ diff_part file diff"
      "failureComment s2 = failureComment s1"
      using diff_step_run by blast
    have "resolve_file penv env file s = (Value (), s2)"
      using ai(1) d(1) by (simp add: resolve_file_def try_catch_def bind_def fallback_step_True)
    then show ?thesis
      using ai d on by (intro exI[of _ "(file, AI_RESOLVED, diff)"] exI[of _ s2]) simp
  next
    case fall
    obtain s2 where f: "fallback_step env file False s1 = (Value True, s2)"
      "successComment s2 = successComment s1 @ ours_entry file"
      "failureComment s2 = failureComment s1"
      using fallback_step_False by blast
    obtain diff s3 where d: "diff_step env file s2 = (Value (), s3)"
      "successComment s3 = successComment s2 @ diff_part file diff"
      "failureComment s3 = failureComment s2"
      using diff_step_run by blast
    have "resolve_file penv env file s = (Value (), s3)"
      using fall(1) f(1) d(1) by (simp add: resolve_file_def try_catch_def bind_def)
    then show ?thesis
      using fall f d by (intro exI[of _ "(file, FALLBACK_RESOLVED, diff)"] exI[of _ s3]) simp
  next
    case err
    have on: "USE_AI penv" using err(1) ai_step_off[of penv env "file" s] by (cases "USE_AI penv") simp_all
    have "resolve_file penv env file s
          = (Value (), s1\<lparr>trace := trace s1 @ [ConsoleError (''Error resolving '' @ file @ '':'') (Some e)],
                           failureComment := failureComment s1 @ error_entry file e\<rparr>)"
      using err(1)
      by (simp add: resolve_file_def try_catch_def bind_def console_error_def emit_def
          append_failure_def)
    then show ?thesis
      using err on by (intro exI[of _ "(file, FAILED e, None)"]) simp
  qed
qed

section \<open>The loop\<close>

lemma success_row_failure_row: "is_success row \<Longrightarrow> failure_row row = []"
  by (cases row rule: is_success.cases) simp_all

lemma for_each_rows:
  "\<exists>rows s'. for_each files (resolve_file penv env) s = (Value (), s')
        \<and> map fst rows = files
        \<and> successComment s' = successComment s @ success_text rows
        \<and> failureComment s' = failureComment s @ failure_text rows
        \<and> (\<not> USE_AI penv \<longrightarrow> list_all is_fallback rows)"
proof (induction files arbitrary: s)
  case Nil
  show ?case
    by (intro exI[of _ "[]"] exI[of _ s]) (simp add: ret_def success_text_def failure_text_def)
next
  case (Cons f files)
  obtain row s1 where one: "resolve_file penv env f s = (Value (), s1)" "fst row = f"
      "successComment s1 = successComment s @ success_row row"
      "failureComment s1 = failureComment s @ failure_row row"
      "\<not> USE_AI penv \<longrightarrow> is_fallback row"
    using resolve_file_row[of penv env f s] by blast
  obtain rows s2 where rest: "for_each files (resolve_file penv env) s1 = (Value (), s2)"
      "map fst rows = files"
      "successComment s2 = successComment s1 @ success_text rows"
      "failureComment s2 = failureComment s1 @ failure_text rows"
      "\<not> USE_AI penv \<longrightarrow> list_all is_fallback rows"
    using Cons.IH[of s1] by blast
  have "for_each (f # files) (resolve_file penv env) s = (Value (), s2)"
    using one(1) rest(1) by (simp add: bind_def)
  then show ?case
    using one rest
    by (intro exI[of _ "row # rows"] exI[of _ s2]) (simp add: success_text_def failure_text_def)
qed

text \<open>The loop runs no commit and posts no comment.\<close>

lemma emits_resolve_file:
  assumes "\<And>command. take 10 command \<noteq> ''git commit'' \<Longrightarrow> P (Exec command)"
    and "\<And>path. P (ReadFile path)" and "\<And>path content. P (WriteFile path content)"
    and "\<And>url model prompt n headers. P (HttpPost url (CompletionBody model prompt n) headers)"
    and "\<And>ev. is_console ev \<Longrightarrow> P ev"
  shows "emits P (resolve_file penv env f)"
  unfolding resolve_file_def ai_step_def fallback_step_def diff_step_def
  by (intro emits_rules emits_runCommand emits_resolveManually emits_getFileDiff
        emits_resolveWithAI assms)
     (simp_all add: git_add_cmd_def checkout_ours_cmd_def diff_cached_cmd_def)

section \<open>A whole run of the pipeline\<close>

lemma runCommand_run:
  "runCommand env command s =
     (case execSync env command (world s) of
        (Inr out, w') \<Rightarrow>
          (Value (Some (trim out)), s\<lparr>world := w', trace := trace s @ [Exec command]\<rparr>)
      | (Inl e, w') \<Rightarrow>
          (Value None,
           s\<lparr>world := w',
             trace := trace s @ [Exec command,
                        ConsoleError (''Error executing command: '' @ command) (Some e)]\<rparr>))"
  by (simp add: runCommand_def try_catch_def bind_def call_execSync_def Let_def ret_def
      console_error_def emit_def split: prod.splits sum.splits)

lemma postCommentToPR_run:
  "postCommentToPR penv env body s =
     (case axios_post env (comments_url penv (PR_NUMBER penv)) (CommentBody body)
             (comment_headers penv) (world s) of
        (r, w') \<Rightarrow>
          (Value (),
           s\<lparr>world := w',
             trace := trace s @ [HttpPost (comments_url penv (PR_NUMBER penv)) (CommentBody body)
                                   (comment_headers penv),
                                 post_log r]\<rparr>))"
  by (simp add: postCommentToPR_def try_catch_def bind_def call_axios_post_def Let_def
      console_error_def console_log_def emit_def post_log_def comment_headers_def
      split: prod.splits sum.splits)

lemma conflicted_paths_run:
  "\<exists>s1. getConflictedFiles env (initial w) = (Value (conflicted_paths env w), s1)"
proof -
  obtain files s1 where "getConflictedFiles env (initial w) = (Value files, s1)"
    using returnsD[OF returns_getConflictedFiles] by blast
  then show ?thesis by (simp add: conflicted_paths_def)
qed

lemma success_text_empty: "(success_text rows = []) = (\<not> (\<exists>row\<in>set rows. is_success row))"
proof -
  have "(success_row row = []) = (\<not> is_success row)" for row
    by (cases row rule: is_success.cases) (simp_all add: ai_entry_def ours_entry_def)
  then show ?thesis by (simp add: success_text_def)
qed

lemma emitsD:
  "emits P m \<Longrightarrow> m s = (r, s') \<Longrightarrow> \<exists>evs. trace s' = trace s @ evs \<and> list_all P evs"
  unfolding emits_def by (metis snd_conv)

lemma main_run:
  assumes check: "\<not> (USE_AI penv \<and> \<not> truthy (OPENAI_API_KEY penv))"
    and files: "conflicted_paths env w \<noteq> []"
  shows "\<exists>rows sf r w6.
           main penv env (initial w) = (Value (), sf)
         \<and> map fst rows = conflicted_paths env w
         \<and> successComment sf = success_header @ success_text rows
         \<and> failureComment sf = failure_header @ failure_text rows
         \<and> (\<not> USE_AI penv \<longrightarrow> list_all is_fallback rows)
         \<and> ((Exec commit_cmd \<in> set (trace sf)) = (\<exists>row\<in>set rows. is_success row))
         \<and> (\<exists>pre. trace sf =
                pre @ [HttpPost (comments_url penv (PR_NUMBER penv))
                         (CommentBody (successComment sf @ ''\<newline>'' @ failureComment sf))
                         (comment_headers penv),
                       post_log r]
              \<and> list_all (\<lambda>ev. \<not> is_comment_request ev) pre)
         \<and> r = fst (axios_post env (comments_url penv (PR_NUMBER penv))
                       (CommentBody (successComment sf @ ''\<newline>'' @ failureComment sf))
                       (comment_headers penv) w6)"
proof -
  let ?P = "\<lambda>ev. \<not> is_commit ev \<and> \<not> is_comment_request ev"
  let ?files = "conflicted_paths env w"
  obtain s1 where g: "getConflictedFiles env (initial w) = (Value ?files, s1)"
    using conflicted_paths_run[of env w] by blast
  have q1: "successComment s1 = [] \<and> failureComment s1 = []"
    using quietD[OF quiet_getConflictedFiles g] by (simp add: initial_def)
  have "emits ?P (getConflictedFiles env)"
    by (rule emits_getConflictedFiles) (auto simp: list_unmerged_cmd_def elim: is_console.elims)
  from emitsD[OF this g] have t1: "list_all ?P (trace s1)"
    by (auto simp: initial_def)
  let ?s2 = "s1\<lparr>trace := trace s1 @ [ConsoleLog (''Conflicted files found: '' @ join '', '' ?files)],
               successComment := success_header, failureComment := failure_header\<rparr>"
  obtain rows s5 where loop: "for_each ?files (resolve_file penv env) ?s2 = (Value (), s5)"
      "map fst rows = ?files"
      "successComment s5 = successComment ?s2 @ success_text rows"
      "failureComment s5 = failureComment ?s2 @ failure_text rows"
      "\<not> USE_AI penv \<longrightarrow> list_all is_fallback rows"
    using for_each_rows[of ?files penv env ?s2] by blast
  have "emits ?P (for_each ?files (resolve_file penv env))"
    by (intro emits_for_each emits_resolve_file) (auto elim: is_console.elims)
  from emitsD[OF this loop(1)] t1 have t5: "list_all ?P (trace s5)"
    by auto
  define s6 where "s6 = (if successComment s5 \<noteq> success_header
                         then snd (runCommand env commit_cmd s5) else s5)"
  have q6: "successComment s6 = successComment s5 \<and> failureComment s6 = failureComment s5"
    unfolding s6_def using quiet_runCommand[of env commit_cmd] by (simp add: quiet_def)
  have t6: "\<exists>evs. trace s6 = trace s5 @ evs \<and> list_all (\<lambda>ev. \<not> is_comment_request ev) evs
      \<and> ((Exec commit_cmd \<in> set evs) = (successComment s5 \<noteq> success_header))"
    unfolding s6_def
    by (cases "execSync env commit_cmd (world s5)")
       (auto simp: runCommand_run split: sum.splits)
  let ?body = "successComment s6 @ ''\<newline>'' @ failureComment s6"
  have c: "(USE_AI penv \<and> \<not> truthy (OPENAI_API_KEY penv)) = False"
    using check by simp
  have m: "main penv env (initial w) = postCommentToPR penv env ?body s6"
  proof (cases "successComment s5 \<noteq> success_header")
    case True
    obtain r6 where "runCommand env commit_cmd s5 = (Value r6, s6)"
      using returnsD[OF returns_runCommand, of env commit_cmd s5] True by (auto simp: s6_def)
    then show ?thesis
      using files g loop(1) True
      by (simp add: main_def c bind_def ret_def console_log_def emit_def set_successComment_def
          set_failureComment_def get_successComment_def get_failureComment_def q6)
  next
    case False
    then have "s6 = s5" by (simp add: s6_def)
    then show ?thesis
      using files g loop(1) False
      by (simp add: main_def c bind_def ret_def console_log_def emit_def set_successComment_def
          set_failureComment_def get_successComment_def get_failureComment_def)
  qed
  obtain r w7 where p: "axios_post env (comments_url penv (PR_NUMBER penv)) (CommentBody ?body)
      (comment_headers penv) (world s6) = (r, w7)"
    by (cases "axios_post env (comments_url penv (PR_NUMBER penv)) (CommentBody ?body)
      (comment_headers penv) (world s6)")
  let ?sf = "s6\<lparr>world := w7,
      trace := trace s6 @ [HttpPost (comments_url penv (PR_NUMBER penv)) (CommentBody ?body)
                             (comment_headers penv), post_log r]\<rparr>"
  have mf: "main penv env (initial w) = (Value (), ?sf)"
    using m p by (simp add: postCommentToPR_run)
  obtain evs where evs: "trace s6 = trace s5 @ evs"
      "list_all (\<lambda>ev. \<not> is_comment_request ev) evs"
      "(Exec commit_cmd \<in> set evs) = (successComment s5 \<noteq> success_header)"
    using t6 by blast
  have nc5: "Exec commit_cmd \<notin> set (trace s5)"
    using t5 by (auto simp: list_all_iff commit_cmd_def)
  have commit: "(Exec commit_cmd \<in> set (trace ?sf)) = (\<exists>row\<in>set rows. is_success row)"
    using evs nc5 loop(3) success_text_empty[of rows] by (auto simp: post_log_def split: sum.splits)
  have pre: "list_all (\<lambda>ev. \<not> is_comment_request ev) (trace s6)"
    using t5 evs by (auto simp: list_all_iff)
  show ?thesis
    apply (rule exI[of _ rows], rule exI[of _ ?sf], rule exI[of _ r], rule exI[of _ "world s6"])
    using mf loop q6 commit pre p by simp
qed

section \<open>Facts about rows and whole runs\<close>


lemma run_script_of_main:
  "main penv env (initial w) = (Value (), sf) \<Longrightarrow> run_script penv env w = (0, sf)"
  by (simp add: run_script_def finish_def)

lemma conflicted_paths_scripted:
  "conflicted_paths (scripted_env (Inr out) completion comment) w
     = (if trim out \<noteq> [] then split_lines (trim out) else [])"
  by (simp add: conflicted_paths_def getConflictedFiles_def bind_def runCommand_run
      scripted_env_def initial_def ret_def truthy_def to_str_def)

lemma emits_resolve_file_no_ai:
  assumes "\<not> USE_AI penv"
    and "\<And>command. take 10 command \<noteq> ''git commit'' \<Longrightarrow> P (Exec command)"
    and "\<And>ev. is_console ev \<Longrightarrow> P ev"
  shows "emits P (resolve_file penv env f)"
  unfolding resolve_file_def ai_step_def fallback_step_def diff_step_def
  using assms(1)
  by (simp, intro emits_rules emits_runCommand emits_resolveManually emits_getFileDiff assms)
     (simp_all add: git_add_cmd_def checkout_ours_cmd_def diff_cached_cmd_def)

lemma emits_main_no_ai:
  assumes "\<not> USE_AI penv"
  shows "emits (\<lambda>ev. \<not> is_completion_request ev) (main penv env)"
  unfolding main_def
  by (intro emits_rules emits_getConflictedFiles emits_runCommand emits_postCommentToPR
        emits_resolve_file_no_ai assms)
     (auto elim: is_console.elims)

lemma trace_run_script:
  assumes "emits P (main penv env)" and "\<And>ev. is_console ev \<Longrightarrow> P ev"
  shows "list_all P (trace (snd (run_script penv env w)))"
proof -
  obtain r s where m: "main penv env (initial w) = (r, s)"
    by (cases "main penv env (initial w)")
  from emitsD[OF assms(1) m] have "list_all P (trace s)"
    by (auto simp: initial_def)
  then show ?thesis
    using m assms(2) by (cases r) (simp_all add: run_script_def finish_def)
qed

lemma main_no_conflicts:
  assumes "\<not> (USE_AI penv \<and> \<not> truthy (OPENAI_API_KEY penv))"
    and "conflicted_paths env w = []"
  shows "main penv env (initial w) =
           (Value (),
            \<lparr>world = snd (execSync env list_unmerged_cmd w),
             trace = Exec list_unmerged_cmd
                     # (case fst (execSync env list_unmerged_cmd w) of
                          Inl e \<Rightarrow> [ConsoleError (''Error executing command: '' @ list_unmerged_cmd)
                                      (Some e)]
                        | Inr out \<Rightarrow> [])
                     @ [ConsoleLog ''No conflicts found.''],
             successComment = [], failureComment = []\<rparr>)"
proof -
  have c: "(USE_AI penv \<and> \<not> truthy (OPENAI_API_KEY penv)) = False"
    using assms(1) by simp
  obtain s1 where g: "getConflictedFiles env (initial w) = (Value [], s1)"
    using conflicted_paths_run[of env w] assms(2) by auto
  have "s1 = snd (runCommand env list_unmerged_cmd (initial w))"
    using g by (simp add: getConflictedFiles_def bind_def ret_def split: prod.splits result.splits)
  then have s1: "s1 = \<lparr>world = snd (execSync env list_unmerged_cmd w),
             trace = Exec list_unmerged_cmd
                     # (case fst (execSync env list_unmerged_cmd w) of
                          Inl e \<Rightarrow> [ConsoleError (''Error executing command: '' @ list_unmerged_cmd)
                                      (Some e)]
                        | Inr out \<Rightarrow> []),
             successComment = [], failureComment = []\<rparr>"
    by (simp add: runCommand_run initial_def split: prod.splits sum.splits)
  have "main penv env (initial w) = (Value (), s1\<lparr>trace := trace s1 @ [ConsoleLog ''No conflicts found.'']\<rparr>)"
    using g by (simp add: main_def c bind_def ret_def console_log_def emit_def)
  then show ?thesis
    by (simp add: s1)
qed

lemma run_script_status:
  assumes "\<not> (USE_AI penv \<and> \<not> truthy (OPENAI_API_KEY penv))"
  shows "fst (run_script penv env w) = 0"
proof (cases "conflicted_paths env w = []")
  case True
  show ?thesis
    by (simp add: run_script_def finish_def main_no_conflicts[OF assms True])
next
  case False
  from main_run[OF assms False] obtain sf where "main penv env (initial w) = (Value (), sf)"
    by blast
  then show ?thesis
    by (simp add: run_script_def finish_def)
qed

lemma all_fallback_no_failure: "list_all is_fallback rows \<Longrightarrow> failure_text rows = []"
proof (induction rows)
  case Nil
  show ?case by (simp add: failure_text_def)
next
  case (Cons row rows)
  then show ?case
    by (cases row rule: is_fallback.cases) (simp_all add: failure_text_def)
qed

section \<open>The variant: every file ends in a ReferenceError\<close>

lemma no_exit_read_var: "no_exit (read_var b x)"
  by (simp add: read_var_def no_exit_ret no_exit_throw split: option.splits)

lemma no_exit_resolveWithAI_extra: "no_exit (resolveWithAI_extra b env filePath)"
  unfolding resolveWithAI_extra_def by (intro no_exit_rules no_exit_read_var)

lemma no_exit_write_content: "no_exit (write_content env filePath content)"
  by (simp add: write_content_def no_exit_throw no_exit_call_writeFileSync split: option.splits)

lemma emits_read_var: "emits P (read_var b x)"
  by (simp add: read_var_def emits_ret emits_throw split: option.splits)

lemma emits_resolve_file_extra:
  assumes "\<And>path. P (Exec (git_add_cmd path))"
    and "\<And>path. P (ReadFile path)" and "\<And>path content. P (WriteFile path content)"
    and "\<And>url model prompt n headers. P (HttpPost url (CompletionBody model prompt n) headers)"
    and "\<And>ev. is_console ev \<Longrightarrow> P ev"
  shows "emits P (resolve_file_extra b env f)"
  unfolding resolve_file_extra_def resolveWithAI_extra_def write_content_def
    append_commentBody_def read_commentBody_def
  by (intro emits_rules emits_runCommand emits_read_var assms)
     (auto simp: assms emits_throw emits_call_writeFileSync split: option.splits)

text \<open>The \<^verbatim>\<open>try\<close> block never completes with a value: its last statement throws.\<close>

lemma try_block_extra_raises:
  "\<exists>e s'. bind (console_log msg1)
            (\<lambda>_. bind (resolveWithAI_extra b env f)
            (\<lambda>aiResolvedContent. bind (write_content env f aiResolvedContent)
            (\<lambda>_. bind (runCommand env (git_add_cmd f))
            (\<lambda>_. bind (console_log msg2)
            (\<lambda>_. append_commentBody str))))) s = (Raise e, s')"
proof -
  let ?s1 = "s\<lparr>trace := trace s @ [ConsoleLog msg1]\<rparr>"
  obtain r s2 where ai: "resolveWithAI_extra b env f ?s1 = (r, s2)"
    by (cases "resolveWithAI_extra b env f ?s1")
  show ?thesis
  proof (cases r)
    case (ProcessExit n)
    then show ?thesis using ai no_exit_resolveWithAI_extra[of b env f]
      by (metis fst_conv no_exit_def)
  next
    case (Raise e)
    then show ?thesis using ai by (simp add: bind_def console_log_def emit_def)
  next
    case (Value content)
    obtain rw s3 where w: "write_content env f content s2 = (rw, s3)"
      by (cases "write_content env f content s2")
    show ?thesis
    proof (cases rw)
      case (ProcessExit n)
      then show ?thesis using w no_exit_write_content[of env f content]
        by (metis fst_conv no_exit_def)
    next
      case (Raise e)
      then show ?thesis using ai Value w by (simp add: bind_def console_log_def emit_def)
    next
      case written: (Value u)
      obtain r4 s4 where add: "runCommand env (git_add_cmd f) s3 = (Value r4, s4)"
        using returnsD[OF returns_runCommand] by blast
      show ?thesis
        using ai Value w written add
        by (simp add: bind_def console_log_def emit_def append_commentBody_def
            read_commentBody_def throw_def)
    qed
  qed
qed

lemma resolve_file_extra_raises:
  "\<exists>s'. resolve_file_extra b env f s = (Raise (reference_error ''commentBody''), s')"
proof -
  obtain e s1 where "bind (console_log (''Attempting AI resolution for '' @ f @ ''...''))
            (\<lambda>_. bind (resolveWithAI_extra b env f)
            (\<lambda>aiResolvedContent. bind (write_content env f aiResolvedContent)
            (\<lambda>_. bind (runCommand env (git_add_cmd f))
            (\<lambda>_. bind (console_log (''Resolved '' @ f @ '' with AI assistance.''))
            (\<lambda>_. append_commentBody
                  ([CHR 0xE2, CHR 0x9C, CHR 0x85] @ '' Resolved `'' @ f
                     @ ''` successfully.\<newline>'')))))) s = (Raise e, s1)"
    using try_block_extra_raises by blast
  then show ?thesis
    unfolding resolve_file_extra_def
    by (simp add: try_catch_def bind_def console_error_def emit_def append_commentBody_def
        read_commentBody_def throw_def)
qed

lemma for_each_extra_raises:
  assumes "files \<noteq> []"
  shows "\<exists>s'. for_each files (resolve_file_extra b env) s
               = (Raise (reference_error ''commentBody''), s')"
proof -
  obtain f rest where files: "files = f # rest"
    using assms by (cases files) auto
  obtain s1 where "resolve_file_extra b env f s = (Raise (reference_error ''commentBody''), s1)"
    using resolve_file_extra_raises by blast
  then show ?thesis
    by (simp add: files bind_def)
qed

lemma variant_event_console: "is_console ev \<Longrightarrow> variant_event ev"
  by (auto simp: variant_event_def elim: is_console.elims)

lemma main_extra_loop:
  assumes "b ''OPENAI_API_KEY'' = Some key" "truthy key"
    and "b ''GITHUB_TOKEN'' = Some token" "truthy token"
    and "conflicted_paths env w \<noteq> []"
  shows "\<exists>sf. main_extra b penv env (initial w) = (Raise (reference_error ''commentBody''), sf)
            \<and> list_all variant_event (trace sf)"
proof -
  let ?files = "conflicted_paths env w"
  obtain s1 where g: "getConflictedFiles env (initial w) = (Value ?files, s1)"
    using conflicted_paths_run[of env w] by blast
  have "emits variant_event (getConflictedFiles env)"
    by (rule emits_getConflictedFiles)
       (simp_all add: variant_event_console, simp add: variant_event_def list_unmerged_cmd_def)
  from emitsD[OF this g] have t1: "list_all variant_event (trace s1)"
    by (auto simp: initial_def)
  let ?s2 = "s1\<lparr>trace := trace s1 @ [ConsoleLog (''Conflicted files found: '' @ join '', '' ?files)]\<rparr>"
  obtain sf where loop: "for_each ?files (resolve_file_extra b env) ?s2
                         = (Raise (reference_error ''commentBody''), sf)"
    using for_each_extra_raises[OF assms(5)] by blast
  have "emits variant_event (for_each ?files (resolve_file_extra b env))"
    by (intro emits_for_each emits_resolve_file_extra)
       (simp_all add: variant_event_console, simp_all add: variant_event_def git_add_cmd_def)
  from emitsD[OF this loop] t1 have tf: "list_all variant_event (trace sf)"
    by (auto simp: variant_event_def)
  have "main_extra b penv env (initial w) = (Raise (reference_error ''commentBody''), sf)"
    using assms g loop
    by (simp add: main_extra_def bind_def read_var_def ret_def console_log_def emit_def)
  then show ?thesis using tf by blast
qed

lemma main_extra_no_key:
  assumes "b ''OPENAI_API_KEY'' = None"
  shows "main_extra b penv env (initial w) = (Raise (reference_error ''OPENAI_API_KEY''), initial w)"
  using assms by (simp add: main_extra_def bind_def read_var_def throw_def)

lemma main_extra_empty_key:
  assumes "b ''OPENAI_API_KEY'' = Some key" "\<not> truthy key"
  shows "main_extra b penv env (initial w)
         = (ProcessExit 1,
            (initial w)\<lparr>trace := [ConsoleError
              ''Error: OPENAI_API_KEY or GITHUB_TOKEN environment variable is not set.'' None]\<rparr>)"
  using assms
  by (simp add: main_extra_def bind_def read_var_def ret_def console_error_def emit_def
      process_exit_def initial_def)

lemma main_extra_no_token:
  assumes "b ''OPENAI_API_KEY'' = Some key" "truthy key" "b ''GITHUB_TOKEN'' = None"
  shows "main_extra b penv env (initial w) = (Raise (reference_error ''GITHUB_TOKEN''), initial w)"
  using assms by (simp add: main_extra_def bind_def read_var_def throw_def ret_def)

lemma main_extra_empty_token:
  assumes "b ''OPENAI_API_KEY'' = Some key" "truthy key"
    and "b ''GITHUB_TOKEN'' = Some token" "\<not> truthy token"
  shows "main_extra b penv env (initial w)
         = (ProcessExit 1,
            (initial w)\<lparr>trace := [ConsoleError
              ''Error: OPENAI_API_KEY or GITHUB_TOKEN environment variable is not set.'' None]\<rparr>)"
  using assms
  by (simp add: main_extra_def bind_def read_var_def ret_def console_error_def emit_def
      process_exit_def initial_def)

lemma main_extra_no_conflicts:
  assumes "b ''OPENAI_API_KEY'' = Some key" "truthy key"
    and "b ''GITHUB_TOKEN'' = Some token" "truthy token"
    and "conflicted_paths env w = []"
  shows "\<exists>sf. main_extra b penv env (initial w) = (Value (), sf)
            \<and> list_all variant_event (trace sf)"
proof -
  obtain s1 where g: "getConflictedFiles env (initial w) = (Value [], s1)"
    using conflicted_paths_run[of env w] assms(5) by auto
  have "emits variant_event (getConflictedFiles env)"
    by (rule emits_getConflictedFiles)
       (simp_all add: variant_event_console, simp add: variant_event_def list_unmerged_cmd_def)
  from emitsD[OF this g] have t1: "list_all variant_event (trace s1)"
    by (auto simp: initial_def)
  have "main_extra b penv env (initial w)
        = (Value (), s1\<lparr>trace := trace s1 @ [ConsoleLog ''No conflicts found.'']\<rparr>)"
    using assms g
    by (simp add: main_extra_def bind_def read_var_def ret_def console_log_def emit_def)
  then show ?thesis using t1 by (simp add: variant_event_def)
qed

lemma run_script_extra_events:
  "list_all variant_event (trace (snd (run_script_extra b penv env w)))"
proof (cases "b ''OPENAI_API_KEY''")
  case None
  show ?thesis
    unfolding run_script_extra_def main_extra_no_key[where b=b, OF None]
        by (simp add: finish_def initial_def variant_event_def)
next
  case key: (Some key)
  show ?thesis
  proof (cases "truthy key")
    case False
    show ?thesis
      unfolding run_script_extra_def main_extra_empty_key[where b=b, OF key False]
        by (simp add: finish_def initial_def variant_event_def)
  next
    case tk: True
    show ?thesis
    proof (cases "b ''GITHUB_TOKEN''")
      case None
      show ?thesis
        unfolding run_script_extra_def main_extra_no_token[where b=b, OF key tk None]
        by (simp add: finish_def initial_def variant_event_def)
    next
      case token: (Some token)
      show ?thesis
      proof (cases "truthy token")
        case False
        show ?thesis
          unfolding run_script_extra_def main_extra_empty_token[where b=b, OF key tk token False]
        by (simp add: finish_def initial_def variant_event_def)
      next
        case tt: True
        show ?thesis
        proof (cases "conflicted_paths env w = []")
          case True
          from main_extra_no_conflicts[where b=b and penv=penv, OF key tk token tt True] obtain sf where
            "main_extra b penv env (initial w) = (Value (), sf)" "list_all variant_event (trace sf)"
            by blast
          then show ?thesis
            by (simp add: run_script_extra_def finish_def)
        next
          case False
          from main_extra_loop[where b=b and penv=penv, OF key tk token tt False] obtain sf where
            "main_extra b penv env (initial w) = (Raise (reference_error ''commentBody''), sf)"
            "list_all variant_event (trace sf)"
            by blast
          then show ?thesis
            by (simp add: run_script_extra_def finish_def variant_event_def)
        qed
      qed
    qed
  qed
qed

lemma resolveManually_runs_checkout:
  "Exec (checkout_ours_cmd filePath) \<in> set (trace (snd (resolveManually env filePath s)))"
  by (simp add: resolveManually_def bind_def try_catch_def runCommand_run console_log_def
      emit_def ret_def split: prod.splits sum.splits)

lemma fallback_step_runs_checkout:
  "Exec (checkout_ours_cmd filePath) \<in> set (trace (snd (fallback_step env filePath False s)))"
proof -
  obtain s1 where m: "resolveManually env filePath s = (Value True, s1)"
    using resolveManually_True by blast
  have "Exec (checkout_ours_cmd filePath) \<in> set (trace s1)"
    using resolveManually_runs_checkout[of filePath env s] m by simp
  then show ?thesis
    using m by (simp add: fallback_step_def bind_def append_success_def ret_def)
qed

lemma diff_step_keeps_trace:
  "diff_step env filePath s = (r, s') \<Longrightarrow> ev \<in> set (trace s) \<Longrightarrow> ev \<in> set (trace s')"
proof -
  assume run: "diff_step env filePath s = (r, s')" and ev: "ev \<in> set (trace s)"
  have "emits (\<lambda>ev. True) (diff_step env filePath)"
    unfolding diff_step_def by (intro emits_rules emits_getFileDiff) simp_all
  from emitsD[OF this run] ev show ?thesis by auto
qed

section \<open>With AI-assist off every file runs the fallback commands\<close>

lemma resolveManually_runs_add:
  "Exec (git_add_cmd filePath) \<in> set (trace (snd (resolveManually env filePath s)))"
  by (simp add: resolveManually_def bind_def try_catch_def runCommand_run console_log_def
      emit_def ret_def split: prod.splits sum.splits)

lemma fallback_step_runs_add:
  "Exec (git_add_cmd filePath) \<in> set (trace (snd (fallback_step env filePath False s)))"
proof -
  obtain s1 where m: "resolveManually env filePath s = (Value True, s1)"
    using resolveManually_True by blast
  have "Exec (git_add_cmd filePath) \<in> set (trace s1)"
    using resolveManually_runs_add[of filePath env s] m by simp
  then show ?thesis
    using m by (simp add: fallback_step_def bind_def append_success_def ret_def)
qed

lemma trace_grows:
  assumes "emits (\<lambda>ev. True) m" and "m s = (r, s')"
  shows "set (trace s) \<subseteq> set (trace s')"
  using emitsD[OF assms] by auto

lemma emits_any_resolve_file: "emits (\<lambda>ev. True) (resolve_file penv env f)"
  by (rule emits_resolve_file) simp_all

lemma resolve_file_off_runs_fallback:
  assumes "\<not> USE_AI penv"
  shows "Exec (checkout_ours_cmd f) \<in> set (trace (snd (resolve_file penv env f s)))
       \<and> Exec (git_add_cmd f) \<in> set (trace (snd (resolve_file penv env f s)))"
proof -
  obtain s2 where fb: "fallback_step env f False s = (Value True, s2)"
    using fallback_step_False by blast
  have c2: "Exec (checkout_ours_cmd f) \<in> set (trace s2)"
    using fallback_step_runs_checkout[of f env s] fb by simp
  have a2: "Exec (git_add_cmd f) \<in> set (trace s2)"
    using fallback_step_runs_add[of f env s] fb by simp
  obtain s3 where d: "diff_step env f s2 = (Value (), s3)"
    using diff_step_run by blast
  have "resolve_file penv env f s = (Value (), s3)"
    using ai_step_off[OF assms, of env f s] fb d
    by (simp add: resolve_file_def try_catch_def bind_def)
  then show ?thesis
    using diff_step_keeps_trace[OF d c2] diff_step_keeps_trace[OF d a2] by simp
qed

lemma for_each_off_runs_fallback:
  assumes "\<not> USE_AI penv"
  shows "list_all (\<lambda>f. Exec (checkout_ours_cmd f)
                          \<in> set (trace (snd (for_each files (resolve_file penv env) s)))
                      \<and> Exec (git_add_cmd f)
                          \<in> set (trace (snd (for_each files (resolve_file penv env) s))))
           files"
proof (induction files arbitrary: s)
  case Nil
  show ?case by simp
next
  case (Cons f files)
  obtain row s1 where one: "resolve_file penv env f s = (Value (), s1)"
    using resolve_file_row[of penv env f s] by blast
  have here: "Exec (checkout_ours_cmd f) \<in> set (trace s1) \<and> Exec (git_add_cmd f) \<in> set (trace s1)"
    using resolve_file_off_runs_fallback[OF assms, of f env s] one by simp
  obtain r s2 where rest: "for_each files (resolve_file penv env) s1 = (r, s2)"
    by (cases "for_each files (resolve_file penv env) s1")
  have "emits (\<lambda>ev. True) (for_each files (resolve_file penv env))"
    by (intro emits_for_each emits_any_resolve_file)
  from trace_grows[OF this rest] have grow: "set (trace s1) \<subseteq> set (trace s2)" .
  have whole: "for_each (f # files) (resolve_file penv env) s = (r, s2)"
    using one rest by (simp add: bind_def)
  have tail: "list_all (\<lambda>f. Exec (checkout_ours_cmd f) \<in> set (trace s2)
                           \<and> Exec (git_add_cmd f) \<in> set (trace s2)) files"
    using Cons.IH[of s1] by (simp add: rest)
  have head: "Exec (checkout_ours_cmd f) \<in> set (trace s2) \<and> Exec (git_add_cmd f) \<in> set (trace s2)"
    using here grow by blast
  show ?case
    unfolding whole using head tail by simp
qed

lemma main_keeps_loop_trace:
  assumes check: "\<not> (USE_AI penv \<and> \<not> truthy (OPENAI_API_KEY penv))"
    and files: "conflicted_paths env w \<noteq> []"
  shows "\<exists>s2. set (trace (snd (for_each (conflicted_paths env w) (resolve_file penv env) s2)))
               \<subseteq> set (trace (snd (main penv env (initial w))))"
proof -
  let ?files = "conflicted_paths env w"
  obtain s1 where g: "getConflictedFiles env (initial w) = (Value ?files, s1)"
    using conflicted_paths_run[of env w] by blast
  let ?s2 = "s1\<lparr>trace := trace s1 @ [ConsoleLog (''Conflicted files found: '' @ join '', '' ?files)],
               successComment := success_header, failureComment := failure_header\<rparr>"
  obtain s5 where loop: "for_each ?files (resolve_file penv env) ?s2 = (Value (), s5)"
    using for_each_rows[of ?files penv env ?s2] by blast
  define s6 where "s6 = (if successComment s5 \<noteq> success_header
                         then snd (runCommand env commit_cmd s5) else s5)"
  have t6: "set (trace s5) \<subseteq> set (trace s6)"
    unfolding s6_def
    by (cases "execSync env commit_cmd (world s5)")
       (auto simp: runCommand_run split: sum.splits)
  have q6: "successComment s6 = successComment s5 \<and> failureComment s6 = failureComment s5"
    unfolding s6_def using quiet_runCommand[of env commit_cmd] by (simp add: quiet_def)
  let ?body = "successComment s6 @ ''\<newline>'' @ failureComment s6"
  have c: "(USE_AI penv \<and> \<not> truthy (OPENAI_API_KEY penv)) = False"
    using check by simp
  have m: "main penv env (initial w) = postCommentToPR penv env ?body s6"
  proof (cases "successComment s5 \<noteq> success_header")
    case True
    obtain r6 where "runCommand env commit_cmd s5 = (Value r6, s6)"
      using returnsD[OF returns_runCommand, of env commit_cmd s5] True by (auto simp: s6_def)
    then show ?thesis
      using files g loop True
      by (simp add: main_def c bind_def ret_def console_log_def emit_def set_successComment_def
          set_failureComment_def get_successComment_def get_failureComment_def q6)
  next
    case False
    then have "s6 = s5" by (simp add: s6_def)
    then show ?thesis
      using files g loop False
      by (simp add: main_def c bind_def ret_def console_log_def emit_def set_successComment_def
          set_failureComment_def get_successComment_def get_failureComment_def)
  qed
  have "set (trace s6) \<subseteq> set (trace (snd (main penv env (initial w))))"
    unfolding m by (auto simp: postCommentToPR_run split: prod.splits)
  then have "set (trace (snd (for_each ?files (resolve_file penv env) ?s2)))
               \<subseteq> set (trace (snd (main penv env (initial w))))"
    using t6 loop by auto
  then show ?thesis by blast
qed

section \<open>The claims\<close>

subsection \<open>A completion request that throws\<close>

text \<open>
  C1, as the spec states it, fails: with AI-assist on, one conflicted file \<open>c.txt\<close> and a
  completion request that throws a network error, the run records \<open>c.txt\<close> in the
  failure section with the error's message, the success section stays empty, and the
  fallback command for \<open>c.txt\<close> is never run.
\<close>

theorem completion_throw_is_failure_counterexample:
  "successComment (snd (run_script ai_on
       (scripted_env (Inr ''c.txt'') (Inl network_error) (Inr (Response None))) 0))
     = success_header
   \<and> failureComment (snd (run_script ai_on
       (scripted_env (Inr ''c.txt'') (Inl network_error) (Inr (Response None))) 0))
     = failure_header @ error_entry ''c.txt'' network_error
   \<and> Exec (checkout_ours_cmd ''c.txt'')
     \<notin> set (trace (snd (run_script ai_on
         (scripted_env (Inr ''c.txt'') (Inl network_error) (Inr (Response None))) 0)))"
  by code_simp

text \<open>
  C1, amended. With AI-assist on, for a file that is read and whose completion request
  is made: if the request throws, the \<^verbatim>\<open>catch\<close> of the loop body logs the error and
  records the file in the failure section with the error's message, and nothing else
  is done for the file (no fallback command); if the request answers with a first
  choice whose text is empty or missing, the fallback runs and the file is recorded as
  resolved with the 'ours' strategy, the failure section unchanged.
\<close>

theorem completion_throw_or_empty:
  assumes "USE_AI penv"
    and "readFileSync env filePath (world s) = (Inr content, w1)"
    and "axios_post env completions_url
           (CompletionBody ''text-davinci-003'' (ai_prompt content) 1500)
           (completion_headers penv) w1 = (answer, w2)"
  shows "(\<forall>e. answer = Inl e \<longrightarrow>
            resolve_file penv env filePath s =
              (Value (),
               \<lparr>world = w2,
                trace = trace s @
                  [ConsoleLog (''Attempting AI resolution for '' @ filePath @ ''...''),
                   ReadFile filePath,
                   HttpPost completions_url
                     (CompletionBody ''text-davinci-003'' (ai_prompt content) 1500)
                     (completion_headers penv),
                   ConsoleError (''Error resolving '' @ filePath @ '':'') (Some e)],
                successComment = successComment s,
                failureComment = failureComment s @ error_entry filePath e\<rparr>))
       \<and> (\<forall>first rest. answer = Inr (Response (Some (first # rest)))
              \<and> \<not> truthy (choice_text first) \<longrightarrow>
            (\<exists>diff s'. resolve_file penv env filePath s = (Value (), s')
               \<and> successComment s' = successComment s @ ours_entry filePath @ diff_part filePath diff
               \<and> failureComment s' = failureComment s
               \<and> Exec (checkout_ours_cmd filePath) \<in> set (trace s')))"
proof (intro conjI allI impI)
  fix e
  assume "answer = Inl e"
  then have "ai_step penv env filePath s
      = (Raise e,
         s\<lparr>world := w2,
           trace := trace s @
             [ConsoleLog (''Attempting AI resolution for '' @ filePath @ ''...''),
              ReadFile filePath,
              HttpPost completions_url
                (CompletionBody ''text-davinci-003'' (ai_prompt content) 1500)
                (completion_headers penv)]\<rparr>)"
    using assms
    by (simp add: ai_step_def bind_def console_log_def emit_def resolveWithAI_def
        call_readFileSync_def call_axios_post_def Let_def completion_headers_def)
  then show "resolve_file penv env filePath s =
              (Value (),
               \<lparr>world = w2,
                trace = trace s @
                  [ConsoleLog (''Attempting AI resolution for '' @ filePath @ ''...''),
                   ReadFile filePath,
                   HttpPost completions_url
                     (CompletionBody ''text-davinci-003'' (ai_prompt content) 1500)
                     (completion_headers penv),
                   ConsoleError (''Error resolving '' @ filePath @ '':'') (Some e)],
                successComment = successComment s,
                failureComment = failureComment s @ error_entry filePath e\<rparr>)"
    by (simp add: resolve_file_def try_catch_def bind_def console_error_def emit_def
        append_failure_def)
next
  fix first rest
  assume "answer = Inr (Response (Some (first # rest))) \<and> \<not> truthy (choice_text first)"
  then have "\<exists>s1. ai_step penv env filePath s = (Value False, s1)
      \<and> successComment s1 = successComment s \<and> failureComment s1 = failureComment s"
    using assms
    by (simp add: ai_step_def bind_def console_log_def emit_def resolveWithAI_def
        call_readFileSync_def call_axios_post_def Let_def completion_headers_def
        first_choice_text_def ret_def)
  then obtain s1 where ai: "ai_step penv env filePath s = (Value False, s1)"
      "successComment s1 = successComment s" "failureComment s1 = failureComment s"
    by blast
  obtain s2 where f: "fallback_step env filePath False s1 = (Value True, s2)"
      "successComment s2 = successComment s1 @ ours_entry filePath"
      "failureComment s2 = failureComment s1"
    using fallback_step_False by blast
  have c2: "Exec (checkout_ours_cmd filePath) \<in> set (trace s2)"
    using fallback_step_runs_checkout[of filePath env s1] f(1) by simp
  obtain diff s3 where d: "diff_step env filePath s2 = (Value (), s3)"
      "successComment s3 = successComment s2 @ diff_part filePath diff"
      "failureComment s3 = failureComment s2"
    using diff_step_run by blast
  have "resolve_file penv env filePath s = (Value (), s3)"
    using ai(1) f(1) d(1) by (simp add: resolve_file_def try_catch_def bind_def)
  then show "\<exists>diff s'. resolve_file penv env filePath s = (Value (), s')
               \<and> successComment s' = successComment s @ ours_entry filePath @ diff_part filePath diff
               \<and> failureComment s' = failureComment s
               \<and> Exec (checkout_ours_cmd filePath) \<in> set (trace s')"
    using ai f d diff_step_keeps_trace[OF d(1) c2]
    by (intro exI[of _ diff] exI[of _ s3]) simp
qed

theorem completion_throw_or_empty_witness:
  "resolve_file ai_on (scripted_env (Inr ''c.txt'') (Inl network_error) (Inr (Response None)))
       ''c.txt'' (initial 0)
     = (Value (),
        \<lparr>world = 2,
         trace =
           [ConsoleLog (''Attempting AI resolution for '' @ ''c.txt'' @ ''...''),
            ReadFile ''c.txt'',
            HttpPost completions_url
              (CompletionBody ''text-davinci-003'' (ai_prompt ''<<<<<<< HEAD'') 1500)
              (completion_headers ai_on),
            ConsoleError (''Error resolving '' @ ''c.txt'' @ '':'') (Some network_error)],
         successComment = [],
         failureComment = error_entry ''c.txt'' network_error\<rparr>)
   \<and> (\<exists>diff s'.
         resolve_file ai_on (scripted_env (Inr ''c.txt'') empty_answer (Inr (Response None)))
             ''c.txt'' (initial 0) = (Value (), s')
       \<and> successComment s'
           = ours_entry ''c.txt'' @ diff_part ''c.txt'' diff
       \<and> failureComment s' = []
       \<and> Exec (checkout_ours_cmd ''c.txt'') \<in> set (trace s'))"
proof (rule conjI)
  let ?env = "scripted_env (Inr ''c.txt'') (Inl network_error) (Inr (Response None))"
  have on: "USE_AI ai_on"
    by (simp add: USE_AI_def ai_on_def)
  have rd: "readFileSync ?env ''c.txt'' (world (initial 0)) = (Inr ''<<<<<<< HEAD'', 1)"
    by (simp add: scripted_env_def initial_def)
  have post: "axios_post ?env completions_url
           (CompletionBody ''text-davinci-003'' (ai_prompt ''<<<<<<< HEAD'') 1500)
           (completion_headers ai_on) 1 = (Inl network_error, 2)"
    by (simp add: scripted_env_def)
  show "resolve_file ai_on ?env ''c.txt'' (initial 0)
     = (Value (),
        \<lparr>world = 2,
         trace =
           [ConsoleLog (''Attempting AI resolution for '' @ ''c.txt'' @ ''...''),
            ReadFile ''c.txt'',
            HttpPost completions_url
              (CompletionBody ''text-davinci-003'' (ai_prompt ''<<<<<<< HEAD'') 1500)
              (completion_headers ai_on),
            ConsoleError (''Error resolving '' @ ''c.txt'' @ '':'') (Some network_error)],
         successComment = [],
         failureComment = error_entry ''c.txt'' network_error\<rparr>)"
    using completion_throw_or_empty[OF on rd post] by (simp add: initial_def)
next
  let ?env = "scripted_env (Inr ''c.txt'') empty_answer (Inr (Response None))"
  have on: "USE_AI ai_on"
    by (simp add: USE_AI_def ai_on_def)
  have rd: "readFileSync ?env ''c.txt'' (world (initial 0)) = (Inr ''<<<<<<< HEAD'', 1)"
    by (simp add: scripted_env_def initial_def)
  have post: "axios_post ?env completions_url
           (CompletionBody ''text-davinci-003'' (ai_prompt ''<<<<<<< HEAD'') 1500)
           (completion_headers ai_on) 1 = (Inr (Response (Some (Choice (Some []) # []))), 2)"
    by (simp add: scripted_env_def empty_answer_def)
  have empty: "Inr (Response (Some (Choice (Some []) # []))) = Inr (Response (Some (Choice (Some []) # [])))
      \<and> \<not> truthy (choice_text (Choice (Some [])))"
    by (simp add: truthy_def)
  show "\<exists>diff s'.
         resolve_file ai_on ?env ''c.txt'' (initial 0) = (Value (), s')
       \<and> successComment s'
           = ours_entry ''c.txt'' @ diff_part ''c.txt'' diff
       \<and> failureComment s' = []
       \<and> Exec (checkout_ours_cmd ''c.txt'') \<in> set (trace s')"
    using completion_throw_or_empty[OF on rd post] empty by (simp add: initial_def)
qed

subsection \<open>Every path is reported once\<close>



subsection \<open>When the commit is made\<close>

text \<open>
  C3. In every run of the pipeline that reaches the loop, the commit command is run if
  and only if the success section received an entry, that is, if and only if some row
  resolved; with no resolved row no commit is made. (Whether git then accepts the
  commit is the collaborator's answer, which the pipeline ignores.) In the variant the
  unconditional commit statement after the loop is never reached: no run of the variant
  runs a commit command.
\<close>

theorem commit_iff_success:
  assumes "\<not> (USE_AI penv \<and> \<not> truthy (OPENAI_API_KEY penv))"
    and "conflicted_paths env w \<noteq> []"
  shows "(\<exists>rows. map fst rows = conflicted_paths env w
           \<and> successComment (snd (run_script penv env w)) = success_header @ success_text rows
           \<and> failureComment (snd (run_script penv env w)) = failure_header @ failure_text rows
           \<and> (Exec commit_cmd \<in> set (trace (snd (run_script penv env w))))
               = (\<exists>row\<in>set rows. is_success row)
           \<and> (Exec commit_cmd \<in> set (trace (snd (run_script penv env w))))
               = (successComment (snd (run_script penv env w)) \<noteq> success_header))
       \<and> list_all (\<lambda>ev. \<not> is_commit ev) (trace (snd (run_script_extra b penv env w)))"
proof (rule conjI)
  from main_run[OF assms] obtain rows sf where
    run: "main penv env (initial w) = (Value (), sf)"
    and rows: "map fst rows = conflicted_paths env w"
      "successComment sf = success_header @ success_text rows"
      "failureComment sf = failure_header @ failure_text rows"
    and commit: "(Exec commit_cmd \<in> set (trace sf)) = (\<exists>row\<in>set rows. is_success row)"
    by blast
  have sf: "snd (run_script penv env w) = sf"
    using run_script_of_main[OF run] by simp
  have "(successComment sf \<noteq> success_header) = (\<exists>row\<in>set rows. is_success row)"
    using rows(2) success_text_empty[of rows] by simp
  then show "\<exists>rows. map fst rows = conflicted_paths env w
           \<and> successComment (snd (run_script penv env w)) = success_header @ success_text rows
           \<and> failureComment (snd (run_script penv env w)) = failure_header @ failure_text rows
           \<and> (Exec commit_cmd \<in> set (trace (snd (run_script penv env w))))
               = (\<exists>row\<in>set rows. is_success row)
           \<and> (Exec commit_cmd \<in> set (trace (snd (run_script penv env w))))
               = (successComment (snd (run_script penv env w)) \<noteq> success_header)"
    unfolding sf using rows commit by (intro exI[of _ rows]) simp
next
  show "list_all (\<lambda>ev. \<not> is_commit ev) (trace (snd (run_script_extra b penv env w)))"
    using run_script_extra_events[of b penv env w]
    by (simp add: list_all_iff variant_event_def)
qed

theorem commit_iff_success_witness:
  "((\<exists>rows. map fst rows = [''c.txt'']
       \<and> successComment (snd (run_script ai_on
             (scripted_env (Inr ''c.txt'') (Inl network_error) (Inr (Response None))) 0))
           = success_header @ success_text rows
       \<and> failureComment (snd (run_script ai_on
             (scripted_env (Inr ''c.txt'') (Inl network_error) (Inr (Response None))) 0))
           = failure_header @ failure_text rows
       \<and> (Exec commit_cmd \<in> set (trace (snd (run_script ai_on
             (scripted_env (Inr ''c.txt'') (Inl network_error) (Inr (Response None))) 0))))
           = (\<exists>row\<in>set rows. is_success row)
       \<and> (Exec commit_cmd \<in> set (trace (snd (run_script ai_on
             (scripted_env (Inr ''c.txt'') (Inl network_error) (Inr (Response None))) 0))))
           = (successComment (snd (run_script ai_on
                (scripted_env (Inr ''c.txt'') (Inl network_error) (Inr (Response None))) 0))
              \<noteq> success_header))
     \<and> list_all (\<lambda>ev. \<not> is_commit ev)
         (trace (snd (run_script_extra both_bound ai_on
            (scripted_env (Inr ''c.txt'') (Inl network_error) (Inr (Response None))) 0))))
   \<and> Exec commit_cmd \<notin> set (trace (snd (run_script ai_on
         (scripted_env (Inr ''c.txt'') (Inl network_error) (Inr (Response None))) 0)))
   \<and> Exec commit_cmd \<in> set (trace (snd (run_script ai_on
         (scripted_env (Inr ''c.txt'') merged_answer (Inr (Response None))) 0)))"
proof (intro conjI)
  let ?env = "scripted_env (Inr ''c.txt'') (Inl network_error) (Inr (Response None))"
  have paths: "conflicted_paths ?env 0 = [''c.txt'']"
    by code_simp
  have check: "\<not> (USE_AI ai_on \<and> \<not> truthy (OPENAI_API_KEY ai_on))"
    by (simp add: ai_on_def USE_AI_def OPENAI_API_KEY_def truthy_def)
  have nonempty: "conflicted_paths ?env 0 \<noteq> []"
    using paths by simp
  note inst = commit_iff_success[OF check nonempty, of both_bound]
  show "\<exists>rows. map fst rows = [''c.txt'']
       \<and> successComment (snd (run_script ai_on ?env 0)) = success_header @ success_text rows
       \<and> failureComment (snd (run_script ai_on ?env 0)) = failure_header @ failure_text rows
       \<and> (Exec commit_cmd \<in> set (trace (snd (run_script ai_on ?env 0))))
           = (\<exists>row\<in>set rows. is_success row)
       \<and> (Exec commit_cmd \<in> set (trace (snd (run_script ai_on ?env 0))))
           = (successComment (snd (run_script ai_on ?env 0)) \<noteq> success_header)"
    using inst[THEN conjunct1] unfolding paths .
  show "list_all (\<lambda>ev. \<not> is_commit ev) (trace (snd (run_script_extra both_bound ai_on ?env 0)))"
    using inst[THEN conjunct2] .
  show "Exec commit_cmd \<notin> set (trace (snd (run_script ai_on ?env 0)))"
    by code_simp
  show "Exec commit_cmd \<in> set (trace (snd (run_script ai_on
         (scripted_env (Inr ''c.txt'') merged_answer (Inr (Response None))) 0)))"
    by code_simp
qed

subsection \<open>No conflicted file\<close>

text \<open>
  C4. A run that passes the credential check and detects no conflicted file ends with
  status 0; its last event is the log of \<open>No conflicts found.\<close>; the only call it makes
  besides logging is the listing command, so no commit, no completion request, no
  comment, no file write and no other command happens, and the report strings are
  never set.
\<close>

theorem no_conflicts_is_noop:
  assumes "\<not> (USE_AI penv \<and> \<not> truthy (OPENAI_API_KEY penv))"
    and "conflicted_paths env w = []"
  shows "run_script penv env w =
           (0,
            \<lparr>world = snd (execSync env list_unmerged_cmd w),
             trace = Exec list_unmerged_cmd
                     # (case fst (execSync env list_unmerged_cmd w) of
                          Inl e \<Rightarrow> [ConsoleError (''Error executing command: '' @ list_unmerged_cmd)
                                      (Some e)]
                        | Inr out \<Rightarrow> [])
                     @ [ConsoleLog ''No conflicts found.''],
             successComment = [], failureComment = []\<rparr>)
       \<and> list_all (\<lambda>ev. ev = Exec list_unmerged_cmd \<or> is_console ev)
            (trace (snd (run_script penv env w)))"
proof -
  have run: "run_script penv env w =
           (0,
            \<lparr>world = snd (execSync env list_unmerged_cmd w),
             trace = Exec list_unmerged_cmd
                     # (case fst (execSync env list_unmerged_cmd w) of
                          Inl e \<Rightarrow> [ConsoleError (''Error executing command: '' @ list_unmerged_cmd)
                                      (Some e)]
                        | Inr out \<Rightarrow> [])
                     @ [ConsoleLog ''No conflicts found.''],
             successComment = [], failureComment = []\<rparr>)"
    unfolding run_script_def main_no_conflicts[OF assms] by (simp add: finish_def)
  have "list_all (\<lambda>ev. ev = Exec list_unmerged_cmd \<or> is_console ev)
          (trace (snd (run_script penv env w)))"
    unfolding run by (simp split: sum.splits)
  then show ?thesis using run by simp
qed

theorem no_conflicts_is_noop_witness:
  "run_script ai_on failing_env 0 =
           (0,
            \<lparr>world = snd (execSync failing_env list_unmerged_cmd 0),
             trace = Exec list_unmerged_cmd
                     # (case fst (execSync failing_env list_unmerged_cmd 0) of
                          Inl e \<Rightarrow> [ConsoleError (''Error executing command: '' @ list_unmerged_cmd)
                                      (Some e)]
                        | Inr out \<Rightarrow> [])
                     @ [ConsoleLog ''No conflicts found.''],
             successComment = [], failureComment = []\<rparr>)
       \<and> list_all (\<lambda>ev. ev = Exec list_unmerged_cmd \<or> is_console ev)
            (trace (snd (run_script ai_on failing_env 0)))"
proof -
  have check: "\<not> (USE_AI ai_on \<and> \<not> truthy (OPENAI_API_KEY ai_on))"
    by (simp add: ai_on_def USE_AI_def OPENAI_API_KEY_def truthy_def)
  have none: "conflicted_paths failing_env 0 = []"
    by code_simp
  show ?thesis
    by (rule no_conflicts_is_noop[OF check none])
qed

subsection \<open>AI-assist off\<close>

text \<open>
  C5. With the flag off no completion request is made at any point of the run, and every
  detected path resolves by the fallback: each row is a fallback row, the failure
  section stays empty, and for each detected path the run executes the command
  \<open>git checkout --ours\<close> and the command \<open>git add\<close> on that path.
\<close>

theorem ai_off_no_completion_call:
  assumes "\<not> USE_AI penv"
  shows "list_all (\<lambda>ev. \<not> is_completion_request ev) (trace (snd (run_script penv env w)))
       \<and> (conflicted_paths env w \<noteq> [] \<longrightarrow>
            (\<exists>rows. map fst rows = conflicted_paths env w
               \<and> list_all is_fallback rows
               \<and> successComment (snd (run_script penv env w)) = success_header @ success_text rows
               \<and> failureComment (snd (run_script penv env w)) = failure_header))
       \<and> list_all (\<lambda>f. Exec (checkout_ours_cmd f) \<in> set (trace (snd (run_script penv env w)))
                        \<and> Exec (git_add_cmd f) \<in> set (trace (snd (run_script penv env w))))
            (conflicted_paths env w)"
proof (intro conjI impI)
  show "list_all (\<lambda>ev. \<not> is_completion_request ev) (trace (snd (run_script penv env w)))"
    by (rule trace_run_script[OF emits_main_no_ai[OF assms]]) (auto elim: is_console.elims)
next
  assume nonempty: "conflicted_paths env w \<noteq> []"
  have check: "\<not> (USE_AI penv \<and> \<not> truthy (OPENAI_API_KEY penv))"
    using assms by simp
  from main_run[OF check nonempty] assms obtain rows sf where
    run: "main penv env (initial w) = (Value (), sf)"
    and rows: "map fst rows = conflicted_paths env w"
      "successComment sf = success_header @ success_text rows"
      "failureComment sf = failure_header @ failure_text rows"
      "list_all is_fallback rows"
    by blast
  have sf: "snd (run_script penv env w) = sf"
    using run_script_of_main[OF run] by simp
  show "\<exists>rows. map fst rows = conflicted_paths env w
               \<and> list_all is_fallback rows
               \<and> successComment (snd (run_script penv env w)) = success_header @ success_text rows
               \<and> failureComment (snd (run_script penv env w)) = failure_header"
    unfolding sf using rows all_fallback_no_failure[OF rows(4)] by (intro exI[of _ rows]) simp
next
  show "list_all (\<lambda>f. Exec (checkout_ours_cmd f) \<in> set (trace (snd (run_script penv env w)))
                        \<and> Exec (git_add_cmd f) \<in> set (trace (snd (run_script penv env w))))
            (conflicted_paths env w)"
  proof (cases "conflicted_paths env w = []")
    case True
    then show ?thesis by simp
  next
    case False
    have check: "\<not> (USE_AI penv \<and> \<not> truthy (OPENAI_API_KEY penv))"
      using assms by simp
    obtain s2 where sub:
      "set (trace (snd (for_each (conflicted_paths env w) (resolve_file penv env) s2)))
         \<subseteq> set (trace (snd (main penv env (initial w))))"
      using main_keeps_loop_trace[OF check False] by blast
    from main_run[OF check False] obtain sf where run: "main penv env (initial w) = (Value (), sf)"
      by blast
    have sf: "snd (run_script penv env w) = snd (main penv env (initial w))"
      using run_script_of_main[OF run] run by simp
    show ?thesis
      unfolding sf
      using for_each_off_runs_fallback[OF assms, of "conflicted_paths env w" env s2] sub
      by (auto simp: list_all_iff)
  qed
qed

theorem ai_off_no_completion_call_witness:
  "list_all (\<lambda>ev. \<not> is_completion_request ev)
     (trace (snd (run_script ai_off
        (scripted_env (Inr ''a.txt\<newline>b.txt'') (Inl network_error) (Inr (Response None))) 0)))
   \<and> (\<exists>rows. map fst rows = [''a.txt'', ''b.txt'']
         \<and> list_all is_fallback rows
         \<and> successComment (snd (run_script ai_off
              (scripted_env (Inr ''a.txt\<newline>b.txt'') (Inl network_error) (Inr (Response None))) 0))
             = success_header @ success_text rows
         \<and> failureComment (snd (run_script ai_off
              (scripted_env (Inr ''a.txt\<newline>b.txt'') (Inl network_error) (Inr (Response None))) 0))
             = failure_header)
   \<and> list_all
        (\<lambda>f. Exec (checkout_ours_cmd f)
               \<in> set (trace (snd (run_script ai_off
                    (scripted_env (Inr ''a.txt\<newline>b.txt'') (Inl network_error)
                       (Inr (Response None))) 0)))
             \<and> Exec (git_add_cmd f)
               \<in> set (trace (snd (run_script ai_off
                    (scripted_env (Inr ''a.txt\<newline>b.txt'') (Inl network_error)
                       (Inr (Response None))) 0))))
        [''a.txt'', ''b.txt'']"
proof -
  let ?env = "scripted_env (Inr ''a.txt\<newline>b.txt'') (Inl network_error) (Inr (Response None))"
  have paths: "conflicted_paths ?env 0 = [''a.txt'', ''b.txt'']"
    by code_simp
  have off: "\<not> USE_AI ai_off"
    by (simp add: ai_off_def USE_AI_def)
  have nonempty: "conflicted_paths ?env 0 \<noteq> []"
    using paths by simp
  note inst = ai_off_no_completion_call[OF off, of ?env 0]
  show ?thesis
    using inst[THEN conjunct1] inst[THEN conjunct2, THEN conjunct1, THEN mp, OF nonempty]
      inst[THEN conjunct2, THEN conjunct2]
    unfolding paths by (intro conjI)
qed

subsection \<open>The credential check\<close>

text \<open>
  C6. With AI-assist on and the completion credential unset or empty, the pipeline logs
  one error and exits with status 1: the world is untouched and the error log is the
  only event of the run. The variant has no flag; when its \<open>OPENAI_API_KEY\<close> is not
  bound, or bound to an unset or empty value, it too ends with status 1, the world
  untouched and one error log its only event.
\<close>

theorem missing_key_exits_first:
  "(USE_AI penv \<and> \<not> truthy (OPENAI_API_KEY penv) \<longrightarrow>
      run_script penv env w =
        (1, \<lparr>world = w,
             trace = [ConsoleError ''Error: OPENAI_API_KEY environment variable is not set.'' None],
             successComment = [], failureComment = []\<rparr>))
   \<and> (b ''OPENAI_API_KEY'' = None \<or> (\<exists>key. b ''OPENAI_API_KEY'' = Some key \<and> \<not> truthy key) \<longrightarrow>
        fst (run_script_extra b penv env w) = 1
      \<and> world (snd (run_script_extra b penv env w)) = w
      \<and> (\<exists>msg err. trace (snd (run_script_extra b penv env w)) = [ConsoleError msg err]))"
proof (rule conjI; rule impI)
  assume "USE_AI penv \<and> \<not> truthy (OPENAI_API_KEY penv)"
  then show "run_script penv env w =
        (1, \<lparr>world = w,
             trace = [ConsoleError ''Error: OPENAI_API_KEY environment variable is not set.'' None],
             successComment = [], failureComment = []\<rparr>)"
    by (simp add: run_script_def finish_def main_def bind_def console_error_def emit_def
        process_exit_def initial_def)
next
  assume absent: "b ''OPENAI_API_KEY'' = None \<or> (\<exists>key. b ''OPENAI_API_KEY'' = Some key \<and> \<not> truthy key)"
  show "fst (run_script_extra b penv env w) = 1
      \<and> world (snd (run_script_extra b penv env w)) = w
      \<and> (\<exists>msg err. trace (snd (run_script_extra b penv env w)) = [ConsoleError msg err])"
  proof (cases "b ''OPENAI_API_KEY''")
    case None
    show ?thesis
      unfolding run_script_extra_def main_extra_no_key[where b=b, OF None]
      by (simp add: finish_def initial_def)
  next
    case (Some key)
    then have "\<not> truthy key"
      using absent by simp
    show ?thesis
      unfolding run_script_extra_def main_extra_empty_key[where b=b, OF Some \<open>\<not> truthy key\<close>]
      by (simp add: finish_def initial_def)
  qed
qed

theorem missing_key_exits_first_witness:
  "run_script ai_on_no_key failing_env 0 =
        (1, \<lparr>world = 0,
             trace = [ConsoleError ''Error: OPENAI_API_KEY environment variable is not set.'' None],
             successComment = [], failureComment = []\<rparr>)
   \<and> fst (run_script_extra Map.empty ai_on_no_key failing_env 0) = 1
   \<and> world (snd (run_script_extra Map.empty ai_on_no_key failing_env 0)) = 0
   \<and> (\<exists>msg err. trace (snd (run_script_extra Map.empty ai_on_no_key failing_env 0))
                   = [ConsoleError msg err])"
proof -
  have missing: "USE_AI ai_on_no_key \<and> \<not> truthy (OPENAI_API_KEY ai_on_no_key)"
    by (simp add: ai_on_no_key_def USE_AI_def OPENAI_API_KEY_def truthy_def)
  have absent: "(Map.empty :: bindings) ''OPENAI_API_KEY'' = None
      \<or> (\<exists>key. (Map.empty :: bindings) ''OPENAI_API_KEY'' = Some key \<and> \<not> truthy key)"
    by simp
  note inst = missing_key_exits_first[of ai_on_no_key failing_env 0 Map.empty]
  show ?thesis
    using inst[THEN conjunct1, THEN mp, OF missing] inst[THEN conjunct2, THEN mp, OF absent]
    by (intro conjI) simp_all
qed

subsection \<open>A failed post of the report\<close>

text \<open>
  C7. A failed post of the report is caught and logged: the run still ends with status
  0, the request and its error log are the last two events of the run, and no comment
  was requested before. Status 0 is the status of every run that passes the credential
  check, whatever the collaborators answer.
\<close>

theorem failed_post_is_logged_only:
  assumes "\<not> (USE_AI penv \<and> \<not> truthy (OPENAI_API_KEY penv))"
    and "conflicted_paths env w \<noteq> []"
    and "\<And>url body headers w1. \<exists>e. fst (axios_post env url (CommentBody body) headers w1) = Inl e"
  shows "fst (run_script penv env w) = 0
       \<and> fst (run_script penv env' w') = 0
       \<and> (\<exists>pre url body headers e.
             trace (snd (run_script penv env w))
               = pre @ [HttpPost url (CommentBody body) headers,
                        ConsoleError ''Error postig comment to PR:'' (Some e)]
           \<and> list_all (\<lambda>ev. \<not> is_comment_request ev) pre)"
proof -
  from main_run[OF assms(1,2)] obtain sf r w6 pre where
    run: "main penv env (initial w) = (Value (), sf)"
    and post: "trace sf = pre @ [HttpPost (comments_url penv (PR_NUMBER penv))
                  (CommentBody (successComment sf @ ''\<newline>'' @ failureComment sf))
                  (comment_headers penv), post_log r]"
      "list_all (\<lambda>ev. \<not> is_comment_request ev) pre"
    and r: "r = fst (axios_post env (comments_url penv (PR_NUMBER penv))
                  (CommentBody (successComment sf @ ''\<newline>'' @ failureComment sf))
                  (comment_headers penv) w6)"
    by blast
  obtain e where "r = Inl e"
    using assms(3) r by blast
  then have "post_log r = ConsoleError ''Error postig comment to PR:'' (Some e)"
    by (simp add: post_log_def)
  moreover have "snd (run_script penv env w) = sf"
    using run_script_of_main[OF run] by simp
  ultimately show ?thesis
    using post run_script_status[OF assms(1), of env w] run_script_status[OF assms(1), of env' w']
    by auto
qed

theorem failed_post_is_logged_only_witness:
  "fst (run_script ai_on (scripted_env (Inr ''c.txt'') merged_answer (Inl network_error)) 0) = 0
   \<and> fst (run_script ai_on failing_env 0) = 0
   \<and> (\<exists>pre url body headers e.
         trace (snd (run_script ai_on
            (scripted_env (Inr ''c.txt'') merged_answer (Inl network_error)) 0))
           = pre @ [HttpPost url (CommentBody body) headers,
                    ConsoleError ''Error postig comment to PR:'' (Some e)]
       \<and> list_all (\<lambda>ev. \<not> is_comment_request ev) pre)"
proof -
  let ?env = "scripted_env (Inr ''c.txt'') merged_answer (Inl network_error)"
  have paths: "conflicted_paths ?env 0 = [''c.txt'']"
    by code_simp
  have check: "\<not> (USE_AI ai_on \<and> \<not> truthy (OPENAI_API_KEY ai_on))"
    by (simp add: ai_on_def USE_AI_def OPENAI_API_KEY_def truthy_def)
  have nonempty: "conflicted_paths ?env 0 \<noteq> []"
    using paths by simp
  have fails: "\<exists>e. fst (axios_post ?env url (CommentBody body) headers w1) = Inl e"
    for url body headers w1
    by (simp add: scripted_env_def)
  show ?thesis
    by (rule failed_post_is_logged_only[OF check nonempty fails])
qed

subsection \<open>A failed listing\<close>

text \<open>
  C8. When the listing command fails, or succeeds with empty output, the detector
  returns the empty list; a run that passed the credential check then ends with status
  0 as the no-conflicts case, its last event the log of \<open>No conflicts found.\<close>, having
  made no call but the listing command.
\<close>

theorem failed_listing_is_no_conflicts:
  assumes "fst (execSync env list_unmerged_cmd w) = r"
    and "case r of Inl e \<Rightarrow> True | Inr out \<Rightarrow> out = []"
  shows "fst (getConflictedFiles env (initial w)) = Value []
       \<and> (\<not> (USE_AI penv \<and> \<not> truthy (OPENAI_API_KEY penv)) \<longrightarrow>
            fst (run_script penv env w) = 0
          \<and> last (trace (snd (run_script penv env w))) = ConsoleLog ''No conflicts found.''
          \<and> list_all (\<lambda>ev. ev = Exec list_unmerged_cmd \<or> is_console ev)
               (trace (snd (run_script penv env w))))"
proof -
  have files: "fst (getConflictedFiles env (initial w)) = Value []"
    using assms
    by (cases "execSync env list_unmerged_cmd w"; cases r)
       (simp_all add: getConflictedFiles_def bind_def runCommand_run ret_def initial_def
          truthy_def trim_Nil)
  then have none: "conflicted_paths env w = []"
    by (simp add: conflicted_paths_def)
  show ?thesis
  proof (intro conjI impI)
    show "fst (getConflictedFiles env (initial w)) = Value []" by (rule files)
  next
    assume check: "\<not> (USE_AI penv \<and> \<not> truthy (OPENAI_API_KEY penv))"
    show "fst (run_script penv env w) = 0"
      by (rule run_script_status[OF check])
  next
    assume check: "\<not> (USE_AI penv \<and> \<not> truthy (OPENAI_API_KEY penv))"
    show "last (trace (snd (run_script penv env w))) = ConsoleLog ''No conflicts found.''"
      unfolding run_script_def main_no_conflicts[OF check none] by (simp add: finish_def)
  next
    assume check: "\<not> (USE_AI penv \<and> \<not> truthy (OPENAI_API_KEY penv))"
    show "list_all (\<lambda>ev. ev = Exec list_unmerged_cmd \<or> is_console ev)
               (trace (snd (run_script penv env w)))"
      unfolding run_script_def main_no_conflicts[OF check none]
      by (simp add: finish_def split: sum.splits)
  qed
qed

theorem failed_listing_is_no_conflicts_witness:
  "(fst (getConflictedFiles failing_env (initial 0)) = Value []
     \<and> fst (run_script ai_off failing_env 0) = 0
     \<and> last (trace (snd (run_script ai_off failing_env 0))) = ConsoleLog ''No conflicts found.''
     \<and> list_all (\<lambda>ev. ev = Exec list_unmerged_cmd \<or> is_console ev)
          (trace (snd (run_script ai_off failing_env 0))))
   \<and> (fst (getConflictedFiles (scripted_env (Inr []) merged_answer (Inr (Response None)))
             (initial 0)) = Value []
     \<and> fst (run_script ai_on (scripted_env (Inr []) merged_answer (Inr (Response None))) 0) = 0
     \<and> last (trace (snd (run_script ai_on
                (scripted_env (Inr []) merged_answer (Inr (Response None))) 0)))
         = ConsoleLog ''No conflicts found.''
     \<and> list_all (\<lambda>ev. ev = Exec list_unmerged_cmd \<or> is_console ev)
          (trace (snd (run_script ai_on
                (scripted_env (Inr []) merged_answer (Inr (Response None))) 0))))"
proof (rule conjI)
  have r: "fst (execSync failing_env list_unmerged_cmd 0) = Inl (JsError ''Error'' ''Command failed'')"
    by (simp add: failing_env_def)
  have c: "case (Inl (JsError ''Error'' ''Command failed'') :: js_error + string) of
             Inl e \<Rightarrow> True | Inr out \<Rightarrow> out = []"
    by simp
  have check: "\<not> (USE_AI ai_off \<and> \<not> truthy (OPENAI_API_KEY ai_off))"
    by (simp add: ai_off_def USE_AI_def)
  show "fst (getConflictedFiles failing_env (initial 0)) = Value []
     \<and> fst (run_script ai_off failing_env 0) = 0
     \<and> last (trace (snd (run_script ai_off failing_env 0))) = ConsoleLog ''No conflicts found.''
     \<and> list_all (\<lambda>ev. ev = Exec list_unmerged_cmd \<or> is_console ev)
          (trace (snd (run_script ai_off failing_env 0)))"
    using failed_listing_is_no_conflicts[OF r c, of ai_off] check by blast
next
  let ?env = "scripted_env (Inr []) merged_answer (Inr (Response None))"
  have r: "fst (execSync ?env list_unmerged_cmd 0) = Inr []"
    by (simp add: scripted_env_def)
  have c: "case (Inr [] :: js_error + string) of Inl e \<Rightarrow> True | Inr out \<Rightarrow> out = []"
    by simp
  have check: "\<not> (USE_AI ai_on \<and> \<not> truthy (OPENAI_API_KEY ai_on))"
    by (simp add: ai_on_def USE_AI_def OPENAI_API_KEY_def truthy_def)
  show "fst (getConflictedFiles ?env (initial 0)) = Value []
     \<and> fst (run_script ai_on ?env 0) = 0
     \<and> last (trace (snd (run_script ai_on ?env 0))) = ConsoleLog ''No conflicts found.''
     \<and> list_all (\<lambda>ev. ev = Exec list_unmerged_cmd \<or> is_console ev)
          (trace (snd (run_script ai_on ?env 0)))"
    using failed_listing_is_no_conflicts[OF r c, of ai_on] check by blast
qed

subsection \<open>The variant\<close>

text \<open>
  C9. In the variant, the statement that appends an entry to the report reads
  \<open>commentBody\<close>, which \<^verbatim>\<open>main\<close> never declares (its variable is \<open>body\<close>). So the
  loop body ends in a ReferenceError for every file, whether the resolution went well or
  not, since the \<^verbatim>\<open>catch\<close> appends too. A run whose two credentials are bound and set
  and which detects at least one file therefore ends with that error escaping
  \<^verbatim>\<open>main\<close>, and with status 1. No run of the variant runs a \<open>git checkout --ours\<close>
  command: it has no fallback.
\<close>

theorem variant_report_step_raises:
  "fst (resolve_file_extra b env filePath s) = Raise (reference_error ''commentBody'')
   \<and> list_all (\<lambda>ev. \<not> is_checkout_ours ev) (trace (snd (run_script_extra b penv env w)))
   \<and> ((\<exists>key token. b ''OPENAI_API_KEY'' = Some key \<and> truthy key
          \<and> b ''GITHUB_TOKEN'' = Some token \<and> truthy token)
        \<and> conflicted_paths env w \<noteq> [] \<longrightarrow>
        fst (main_extra b penv env (initial w)) = Raise (reference_error ''commentBody'')
      \<and> fst (run_script_extra b penv env w) = 1)"
proof (intro conjI impI)
  show "fst (resolve_file_extra b env filePath s) = Raise (reference_error ''commentBody'')"
    using resolve_file_extra_raises[of b env filePath s] by auto
next
  show "list_all (\<lambda>ev. \<not> is_checkout_ours ev) (trace (snd (run_script_extra b penv env w)))"
    using run_script_extra_events[of b penv env w]
    by (simp add: list_all_iff variant_event_def)
next
  assume "(\<exists>key token. b ''OPENAI_API_KEY'' = Some key \<and> truthy key
          \<and> b ''GITHUB_TOKEN'' = Some token \<and> truthy token)
        \<and> conflicted_paths env w \<noteq> []"
  then obtain key token where h: "b ''OPENAI_API_KEY'' = Some key" "truthy key"
      "b ''GITHUB_TOKEN'' = Some token" "truthy token" "conflicted_paths env w \<noteq> []"
    by (elim conjE exE)
  from main_extra_loop[where b=b and penv=penv, OF h] obtain sf where
    run: "main_extra b penv env (initial w) = (Raise (reference_error ''commentBody''), sf)"
    by blast
  show "fst (main_extra b penv env (initial w)) = Raise (reference_error ''commentBody'')"
    using run by simp
  show "fst (run_script_extra b penv env w) = 1"
    using run by (simp add: run_script_extra_def finish_def)
qed

theorem variant_report_step_raises_witness:
  "fst (resolve_file_extra both_bound
          (scripted_env (Inr ''c.txt'') merged_answer (Inr (Response None))) ''c.txt'' (initial 0))
     = Raise (reference_error ''commentBody'')
   \<and> list_all (\<lambda>ev. \<not> is_checkout_ours ev)
        (trace (snd (run_script_extra both_bound ai_on
           (scripted_env (Inr ''c.txt'') merged_answer (Inr (Response None))) 0)))
   \<and> fst (main_extra both_bound ai_on
            (scripted_env (Inr ''c.txt'') merged_answer (Inr (Response None))) (initial 0))
       = Raise (reference_error ''commentBody'')
   \<and> fst (run_script_extra both_bound ai_on
            (scripted_env (Inr ''c.txt'') merged_answer (Inr (Response None))) 0) = 1"
proof -
  let ?env = "scripted_env (Inr ''c.txt'') merged_answer (Inr (Response None))"
  have paths: "conflicted_paths ?env 0 = [''c.txt'']"
    by code_simp
  have h: "(\<exists>key token. both_bound ''OPENAI_API_KEY'' = Some key \<and> truthy key
          \<and> both_bound ''GITHUB_TOKEN'' = Some token \<and> truthy token)
        \<and> conflicted_paths ?env 0 \<noteq> []"
    using paths by (simp add: both_bound_def truthy_def)
  note inst = variant_report_step_raises[of both_bound ?env "''c.txt''" "initial 0" ai_on 0]
  show ?thesis
    using inst[THEN conjunct1] inst[THEN conjunct2, THEN conjunct1]
      inst[THEN conjunct2, THEN conjunct2, THEN mp, OF h]
    by (intro conjI) simp_all
qed

subsection \<open>The fallback resolver\<close>

text \<open>
  C10. \<^verbatim>\<open>resolveManually\<close> returns \<open>true\<close> for every path, in every world, also when
  both of its git commands fail: \<^verbatim>\<open>runCommand\<close> catches the failure and returns
  \<open>null\<close>, so the \<^verbatim>\<open>catch\<close> of \<^verbatim>\<open>resolveManually\<close> is never entered. Hence the loop
  body extends the failure section exactly when its first block (the AI step: reading
  the file, the request, reading the answer, writing the file) throws, and then by the
  entry that carries the error's message, never by the entry for a failed fallback.
\<close>

theorem fallback_never_fails:
  "fst (resolveManually env filePath s) = Value True
   \<and> failureComment (snd (resolve_file penv env filePath s))
       = failureComment s
         @ (case fst (ai_step penv env filePath s) of
              Raise e \<Rightarrow> error_entry filePath e
            | Value resolved \<Rightarrow> []
            | ProcessExit n \<Rightarrow> [])"
proof (rule conjI)
  show "fst (resolveManually env filePath s) = Value True"
    using resolveManually_True[of env filePath s] by auto
next
  obtain row s' where row: "resolve_file penv env filePath s = (Value (), s')"
      "failureComment s' = failureComment s @ failure_row row"
      "case fst (ai_step penv env filePath s) of
         Raise e \<Rightarrow> row = (filePath, FAILED e, None)
       | Value resolved \<Rightarrow> is_success row
       | ProcessExit n \<Rightarrow> False"
    using resolve_file_row[of penv env filePath s] by blast
  have "failure_row row = (case fst (ai_step penv env filePath s) of
              Raise e \<Rightarrow> error_entry filePath e
            | Value resolved \<Rightarrow> []
            | ProcessExit n \<Rightarrow> [])"
    using row(3) by (cases "fst (ai_step penv env filePath s)")
      (simp_all add: success_row_failure_row)
  then show "failureComment (snd (resolve_file penv env filePath s))
       = failureComment s
         @ (case fst (ai_step penv env filePath s) of
              Raise e \<Rightarrow> error_entry filePath e
            | Value resolved \<Rightarrow> []
            | ProcessExit n \<Rightarrow> [])"
    using row(1,2) by simp
qed

theorem fallback_never_fails_witness:
  "fst (resolveManually failing_env ''a.txt'' (initial 0)) = Value True
   \<and> failureComment (snd (resolve_file ai_off failing_env ''a.txt'' (initial 0))) = []
   \<and> successComment (snd (resolve_file ai_off failing_env ''a.txt'' (initial 0)))
       = ours_entry ''a.txt''"
proof -
  have ai: "fst (ai_step ai_off failing_env ''a.txt'' (initial 0)) = Value False"
    by (simp add: ai_step_def USE_AI_def ai_off_def ret_def)
  note inst = fallback_never_fails[of failing_env "''a.txt''" "initial 0" ai_off]
  have "successComment (snd (resolve_file ai_off failing_env ''a.txt'' (initial 0)))
       = ours_entry ''a.txt''"
    by code_simp
  then show ?thesis
    using inst ai by (simp add: initial_def)
qed

end
